theory Spec2Isabelle
  imports Main
begin

section \<open>Bytes and errors\<close>

text \<open>
  A Go byte is a \<^typ>\<open>char\<close> (256 values), a Go \<open>[]byte\<close> or \<open>string\<close> a
  \<^typ>\<open>char list\<close>.  A \<open>bufio.Reader\<close> over a transport is the list of the bytes that
  are still unread; reading from the empty list is the transport's end of stream.
\<close>

abbreviation CR :: char where "CR \<equiv> CHR 0x0D"
abbreviation LF :: char where "LF \<equiv> CHR 0x0A"
abbreviation NUL :: char where "NUL \<equiv> CHR 0x00"
abbreviation DOT :: char where "DOT \<equiv> CHR ''.''"
abbreviation CRLF :: "char list" where "CRLF \<equiv> [CR, LF]"

datatype error =
    EOF
  | ErrClosedPipe
  | ErrUnexpectedEOF
  | ErrLineTooLong int int
  | ErrAlloc int

section \<open>internal/textproto/dot.go\<close>

subsection \<open>dotReader\<close>

datatype dotState =
    dotStateBeginLine
  | dotStateLine
  | dotStateCR
  | dotStateDot
  | dotStateDotCR
  | dotStateEOF

record dotReader =
  dr_r :: "char list"
  dr_state :: dotState

definition newDotReader :: "char list \<Rightarrow> dotReader" where
  "newDotReader r = \<lparr>dr_r = r, dr_state = dotStateBeginLine\<rparr>"

text \<open>
  The loop of \<open>dotReader.Read\<close>.  \<open>plen\<close> is \<open>len(p)\<close>, \<open>out\<close> holds \<open>p[0..n)\<close>, so
  \<open>n = length out\<close>.  \<open>ReadByte\<close> takes the head of \<open>dr_r\<close>; \<open>UnreadByte\<close> puts it
  back, so the branches that unread recurse on the unshortened list.
\<close>

function dotRead_loop :: "nat \<Rightarrow> char list \<Rightarrow> dotReader \<Rightarrow> char list \<times> error option \<times> dotReader" where
  "dotRead_loop plen out d =
    (if length out < plen then
      (case dr_r d of
        [] \<Rightarrow>
          (if 0 < length out then (out, None, d\<lparr>dr_state := dotStateEOF\<rparr>)
           else ([], Some EOF, d\<lparr>dr_state := dotStateEOF\<rparr>))
      | b # rest \<Rightarrow>
          (case dr_state d of
            dotStateBeginLine \<Rightarrow>
              (if b = DOT then dotRead_loop plen out \<lparr>dr_r = rest, dr_state = dotStateDot\<rparr>
               else if b = CR then dotRead_loop plen (out @ [b]) \<lparr>dr_r = rest, dr_state = dotStateCR\<rparr>
               else if b = LF then dotRead_loop plen (out @ [b]) \<lparr>dr_r = rest, dr_state = dotStateBeginLine\<rparr>
               else dotRead_loop plen (out @ [b]) \<lparr>dr_r = rest, dr_state = dotStateLine\<rparr>)
          | dotStateLine \<Rightarrow>
              dotRead_loop plen (out @ [b])
                \<lparr>dr_r = rest,
                 dr_state = (if b = CR then dotStateCR
                             else if b = LF then dotStateBeginLine else dotStateLine)\<rparr>
          | dotStateCR \<Rightarrow>
              dotRead_loop plen (out @ [b])
                \<lparr>dr_r = rest,
                 dr_state = (if b = LF then dotStateBeginLine
                             else if b = CR then dotStateCR else dotStateLine)\<rparr>
          | dotStateDot \<Rightarrow>
              (if b = CR then dotRead_loop plen out \<lparr>dr_r = rest, dr_state = dotStateDotCR\<rparr>
               else if b = LF then (out, Some EOF, \<lparr>dr_r = rest, dr_state = dotStateEOF\<rparr>)
               else if b = DOT then
                 dotRead_loop plen (out @ [DOT]) \<lparr>dr_r = rest, dr_state = dotStateLine\<rparr>
               else if length out + 1 < plen then
                 dotRead_loop plen (out @ [DOT, b]) \<lparr>dr_r = rest, dr_state = dotStateLine\<rparr>
               else
                 dotRead_loop plen (out @ [DOT]) \<lparr>dr_r = b # rest, dr_state = dotStateLine\<rparr>)
          | dotStateDotCR \<Rightarrow>
              (if b = LF then (out, Some EOF, \<lparr>dr_r = rest, dr_state = dotStateEOF\<rparr>)
               else if length out + 2 \<le> plen then
                 (if length out + 2 < plen then
                    dotRead_loop plen (out @ [DOT, CR, b]) \<lparr>dr_r = rest, dr_state = dotStateLine\<rparr>
                  else
                    dotRead_loop plen (out @ [DOT, CR]) \<lparr>dr_r = b # rest, dr_state = dotStateLine\<rparr>)
               else (out @ [DOT], None, \<lparr>dr_r = b # rest, dr_state = dotStateLine\<rparr>))
          | dotStateEOF \<Rightarrow>
              dotRead_loop plen out \<lparr>dr_r = rest, dr_state = dotStateEOF\<rparr>))
     else (out, None, d))"
  by pat_completeness auto
termination
  by (relation "measure (\<lambda>(plen, out, d). length (dr_r d) + (plen - length out))") auto

declare dotRead_loop.simps [simp del]

definition dotReader_Read :: "nat \<Rightarrow> dotReader \<Rightarrow> char list \<times> error option \<times> dotReader" where
  "dotReader_Read plen d =
    (if dr_state d = dotStateEOF then ([], Some EOF, d) else dotRead_loop plen [] d)"

subsection \<open>dotWriter\<close>

text \<open>
  \<open>dw_w\<close> is everything written to the \<open>bufio.Writer\<close> so far; writes into the
  buffer do not fail.
\<close>

record dotWriter =
  dw_w :: "char list"
  beginLine :: bool
  closed :: bool

definition newDotWriter :: "char list \<Rightarrow> dotWriter" where
  "newDotWriter w = \<lparr>dw_w = w, beginLine = True, closed = False\<rparr>"

fun dotWrite_loop :: "char list \<Rightarrow> dotWriter \<Rightarrow> dotWriter" where
  "dotWrite_loop [] d = d"
| "dotWrite_loop (b # p) d =
    dotWrite_loop p
      (d\<lparr>dw_w := dw_w d @ (if beginLine d \<and> b = DOT then [DOT] else []) @ [b],
         beginLine := (b = LF)\<rparr>)"

definition dotWriter_Write :: "char list \<Rightarrow> dotWriter \<Rightarrow> (nat \<times> error option) \<times> dotWriter" where
  "dotWriter_Write p d =
    (if closed d then ((0, Some ErrClosedPipe), d)
     else ((length p, None), dotWrite_loop p d))"

definition dotWriter_Close :: "dotWriter \<Rightarrow> error option \<times> dotWriter" where
  "dotWriter_Close d =
    (if closed d then (None, d)
     else
       (let d1 = d\<lparr>closed := True\<rparr>;
            d2 = (if \<not> beginLine d1 then d1\<lparr>dw_w := dw_w d1 @ CRLF\<rparr> else d1)
        in (None, d2\<lparr>dw_w := dw_w d2 @ [DOT, CR, LF]\<rparr>)))"

subsection \<open>Reading a body to its end\<close>

text \<open>
  \<open>io.ReadAll\<close> calls \<open>Read\<close> on the free tail of a growing buffer until an error
  comes back, and turns \<open>io.EOF\<close> into success.  The sizes of the free tails depend on
  the allocator, so they are a parameter: the list \<open>ks\<close> gives the length of the buffer
  passed to each successive \<open>Read\<close>.  When the list is used up before the reader has
  reported an error the result is \<open>None\<close>.
\<close>

fun readAll :: "nat list \<Rightarrow> char list \<Rightarrow> dotReader \<Rightarrow> (char list \<times> error option \<times> dotReader) option" where
  "readAll [] b d = None"
| "readAll (k # ks) b d =
    (case dotReader_Read k d of
      (chunk, Some e, d') \<Rightarrow> Some (b @ chunk, (if e = EOF then None else Some e), d')
    | (chunk, None, d') \<Rightarrow> readAll ks (b @ chunk) d')"

text \<open>The wire bytes produced by writing \<open>B\<close> through a fresh writer and closing it.\<close>

definition dotWire :: "char list \<Rightarrow> char list" where
  "dotWire B = dw_w (snd (dotWriter_Close (snd (dotWriter_Write B (newDotWriter [])))))"

text \<open>
  The expected result of the round trip as the repository's fuzz target
  \<open>FuzzDotRoundTrip\<close> computes it: CRLF is appended when the data is not empty and
  does not end in LF.
\<close>

definition fuzzWant :: "char list \<Rightarrow> char list" where
  "fuzzWant B = (if B \<noteq> [] \<and> last B \<noteq> LF then B @ CRLF else B)"

section \<open>internal/textproto/conn.go\<close>

definition MaxCommandLineLen :: int where "MaxCommandLineLen = 512"
definition MaxReplyLineLen :: int where "MaxReplyLineLen = 2048"

text \<open>\<open>NewConn\<close> builds its reader with \<open>bufio.NewReaderSize(c, 4096)\<close>.\<close>

definition readerSize :: nat where "readerSize = 4096"

text \<open>
  \<open>bufio.Reader.ReadLine\<close> of the Go standard library, on the unread bytes \<open>r\<close>:
  when a LF lies within the first \<open>readerSize\<close> bytes, the line up to it comes back
  without its \<open>\n\<close> or \<open>\r\n\<close>; when the buffer fills up first, the full buffer comes
  back with \<open>isPrefix\<close> set, a trailing CR being put back for the next call; at the end
  of the stream the unterminated rest comes back, and \<open>io.EOF\<close> when nothing is left.
  The result is \<open>((line, isPrefix, err), unread bytes)\<close>.
\<close>

definition bufio_ReadLine :: "char list \<Rightarrow> (char list \<times> bool \<times> error option) \<times> char list" where
  "bufio_ReadLine r =
    (if LF \<in> set (take readerSize r) then
       (let line = takeWhile (\<lambda>b. b \<noteq> LF) r
        in ((if line \<noteq> [] \<and> last line = CR then butlast line else line, False, None),
            drop (length line + 1) r))
     else if readerSize \<le> length r then
       (let line = take readerSize r
        in if last line = CR then ((butlast line, True, None), drop (readerSize - 1) r)
           else ((line, True, None), drop readerSize r))
     else if r = [] then (([], False, Some EOF), [])
     else ((r, False, None), []))"

lemma bufio_ReadLine_prefix_shorter:
  assumes "bufio_ReadLine r = ((chunk, True, e), r')"
  shows "length r' < length r"
  using assms
  by (auto simp: bufio_ReadLine_def readerSize_def Let_def split: if_splits)

text \<open>The draining loop of \<open>Conn.ReadLine\<close>, entered with \<open>isPrefix\<close> set.\<close>

function drain_loop :: "char list \<Rightarrow> char list" where
  "drain_loop r =
    (case bufio_ReadLine r of
      ((chunk, isPrefix, err), r') \<Rightarrow>
        if err \<noteq> None then r'
        else if isPrefix then drain_loop r'
        else r')"
  by pat_completeness auto
termination
  by (relation "measure length") (auto dest: bufio_ReadLine_prefix_shorter [OF sym])

declare drain_loop.simps [simp del]

function ReadLine_loop :: "int \<Rightarrow> char list \<Rightarrow> char list \<Rightarrow> (error + char list) \<times> char list" where
  "ReadLine_loop maxLen line r =
    (case bufio_ReadLine r of
      ((chunk, isPrefix, err), r') \<Rightarrow>
        (case err of
          Some e \<Rightarrow> (Inl e, r')
        | None \<Rightarrow>
            if \<not> isPrefix then
              (if int (length (line @ chunk)) > maxLen - 2
               then (Inl (ErrLineTooLong (int (length (line @ chunk)) + 2) maxLen), r')
               else (Inr (line @ chunk), r'))
            else if int (length (line @ chunk)) > maxLen
            then (Inl (ErrLineTooLong (int (length (line @ chunk))) maxLen), drain_loop r')
            else ReadLine_loop maxLen (line @ chunk) r'))"
  by pat_completeness auto
termination
  by (relation "measure (\<lambda>(maxLen, line, r). length r)") (auto dest: bufio_ReadLine_prefix_shorter [OF sym])

declare ReadLine_loop.simps [simp del]

definition Conn_ReadLine :: "int \<Rightarrow> char list \<Rightarrow> (error + char list) \<times> char list" where
  "Conn_ReadLine maxLen r = ReadLine_loop maxLen [] r"


section \<open>Formatting and string functions of the Go standard library\<close>

text \<open>\<open>fmt\<close>'s \<open>%d\<close> for an integer.\<close>

fun showNat :: "nat \<Rightarrow> string" where
  "showNat n =
    (if n < 10 then [''0123456789'' ! n]
     else showNat (n div 10) @ [''0123456789'' ! (n mod 10)])"

declare showNat.simps [simp del]

definition showInt :: "int \<Rightarrow> string" where
  "showInt i = (if i < 0 then CHR ''-'' # showNat (nat (- i)) else showNat (nat i))"

text \<open>\<open>strings.Cut(s, sep)\<close> for a one-byte separator.\<close>

definition Cut :: "string \<Rightarrow> char \<Rightarrow> string \<times> string \<times> bool" where
  "Cut s sep =
    (if sep \<in> set s
     then (takeWhile (\<lambda>b. b \<noteq> sep) s, drop (length (takeWhile (\<lambda>b. b \<noteq> sep) s) + 1) s, True)
     else (s, [], False))"

text \<open>\<open>strings.SplitN(s, sep, 2)\<close> and \<open>strings.Split(s, sep)\<close> for a one-byte separator.\<close>

definition SplitN2 :: "string \<Rightarrow> char \<Rightarrow> string list" where
  "SplitN2 s sep = (case Cut s sep of (before, after, found) \<Rightarrow> if found then [before, after] else [s])"

fun Split_loop :: "char \<Rightarrow> string \<Rightarrow> string \<Rightarrow> string list" where
  "Split_loop sep [] cur = [cur]"
| "Split_loop sep (b # s) cur =
    (if b = sep then cur # Split_loop sep s [] else Split_loop sep s (cur @ [b]))"

definition Split :: "string \<Rightarrow> char \<Rightarrow> string list" where
  "Split s sep = Split_loop sep s []"

text \<open>\<open>strings.Join(elems, sep)\<close>.\<close>

fun Join :: "string list \<Rightarrow> string \<Rightarrow> string" where
  "Join [] sep = []"
| "Join [x] sep = x"
| "Join (x # y # xs) sep = x @ sep @ Join (y # xs) sep"

text \<open>
  \<open>strconv.Atoi\<close> on a 64-bit platform: an optional sign, then one or more decimal
  digits; a value outside the range of \<open>int\<close> is an error.
\<close>

definition isDigit :: "char \<Rightarrow> bool" where
  "isDigit c \<longleftrightarrow> (48::nat) \<le> of_char c \<and> (of_char c :: nat) \<le> 57"

fun digitsVal :: "string \<Rightarrow> int \<Rightarrow> int" where
  "digitsVal [] acc = acc"
| "digitsVal (c # cs) acc = digitsVal cs (acc * 10 + ((of_char c :: int) - 48))"

definition Atoi :: "string \<Rightarrow> int option" where
  "Atoi s =
    (let neg = (s \<noteq> [] \<and> hd s = CHR ''-'');
         ds = (if s \<noteq> [] \<and> (hd s = CHR ''-'' \<or> hd s = CHR ''+'') then tl s else s);
         v = (if neg then - digitsVal ds 0 else digitsVal ds 0)
     in if ds = [] \<or> \<not> list_all isDigit ds then None
        else if v < - (2 ^ 63) \<or> 2 ^ 63 - 1 < v then None
        else Some v)"

section \<open>The smtp package: reply codes, enhanced codes, errors, SASL PLAIN\<close>

definition ReplyServiceReady :: int where "ReplyServiceReady = 220"
definition ReplyServiceClosing :: int where "ReplyServiceClosing = 221"
definition ReplyAuthOK :: int where "ReplyAuthOK = 235"
definition ReplyOK :: int where "ReplyOK = 250"
definition ReplyCannotVRFY :: int where "ReplyCannotVRFY = 252"
definition ReplyAuthContinue :: int where "ReplyAuthContinue = 334"
definition ReplyStartMailInput :: int where "ReplyStartMailInput = 354"
definition ReplyServiceNotAvailable :: int where "ReplyServiceNotAvailable = 421"
definition ReplyLocalError :: int where "ReplyLocalError = 451"
definition ReplyInsufficientStorage :: int where "ReplyInsufficientStorage = 452"
definition ReplySyntaxError :: int where "ReplySyntaxError = 500"
definition ReplySyntaxParamError :: int where "ReplySyntaxParamError = 501"
definition ReplyCommandNotImpl :: int where "ReplyCommandNotImpl = 502"
definition ReplyBadSequence :: int where "ReplyBadSequence = 503"
definition ReplyAuthRequired :: int where "ReplyAuthRequired = 530"
definition ReplyAuthFailed :: int where "ReplyAuthFailed = 535"

lemmas reply_codes = ReplyServiceReady_def ReplyServiceClosing_def ReplyAuthOK_def ReplyOK_def
  ReplyCannotVRFY_def ReplyAuthContinue_def ReplyStartMailInput_def ReplyServiceNotAvailable_def
  ReplyLocalError_def ReplyInsufficientStorage_def ReplySyntaxError_def ReplySyntaxParamError_def
  ReplyCommandNotImpl_def ReplyBadSequence_def ReplyAuthRequired_def ReplyAuthFailed_def

record EnhancedCode =
  Class :: int
  Subject :: int
  Detail :: int

definition mkEnhanced :: "int \<Rightarrow> int \<Rightarrow> int \<Rightarrow> EnhancedCode" where
  "mkEnhanced c s d = \<lparr>Class = c, Subject = s, Detail = d\<rparr>"

definition EnhancedCodeZero :: EnhancedCode where "EnhancedCodeZero = mkEnhanced 0 0 0"
definition EnhancedCodeOK :: EnhancedCode where "EnhancedCodeOK = mkEnhanced 2 0 0"
definition EnhancedCodeOtherAddress :: EnhancedCode where "EnhancedCodeOtherAddress = mkEnhanced 2 1 0"
definition EnhancedCodeDestValid :: EnhancedCode where "EnhancedCodeDestValid = mkEnhanced 2 1 5"
definition EnhancedCodeBadDestSyntax :: EnhancedCode where "EnhancedCodeBadDestSyntax = mkEnhanced 5 1 3"
definition EnhancedCodeBadSenderSyntax :: EnhancedCode where "EnhancedCodeBadSenderSyntax = mkEnhanced 5 1 7"
definition EnhancedCodeOtherNetwork :: EnhancedCode where "EnhancedCodeOtherNetwork = mkEnhanced 4 4 0"
definition EnhancedCodeInvalidCommand :: EnhancedCode where "EnhancedCodeInvalidCommand = mkEnhanced 5 5 1"
definition EnhancedCodeSyntaxError :: EnhancedCode where "EnhancedCodeSyntaxError = mkEnhanced 5 5 2"
definition EnhancedCodeTooManyRecipients :: EnhancedCode where "EnhancedCodeTooManyRecipients = mkEnhanced 5 5 3"
definition EnhancedCodeInvalidParams :: EnhancedCode where "EnhancedCodeInvalidParams = mkEnhanced 5 5 4"
definition EnhancedCodeAuthRequired :: EnhancedCode where "EnhancedCodeAuthRequired = mkEnhanced 5 7 0"
definition EnhancedCodeAuthCredentials :: EnhancedCode where "EnhancedCodeAuthCredentials = mkEnhanced 5 7 8"

lemmas enhanced_codes = mkEnhanced_def EnhancedCodeZero_def EnhancedCodeOK_def
  EnhancedCodeOtherAddress_def EnhancedCodeDestValid_def EnhancedCodeBadDestSyntax_def
  EnhancedCodeBadSenderSyntax_def EnhancedCodeOtherNetwork_def EnhancedCodeInvalidCommand_def
  EnhancedCodeSyntaxError_def EnhancedCodeTooManyRecipients_def EnhancedCodeInvalidParams_def
  EnhancedCodeAuthRequired_def EnhancedCodeAuthCredentials_def

definition EnhancedCode_String :: "EnhancedCode \<Rightarrow> string" where
  "EnhancedCode_String e = showInt (Class e) @ ''.'' @ showInt (Subject e) @ ''.'' @ showInt (Detail e)"

definition IsZero :: "EnhancedCode \<Rightarrow> bool" where
  "IsZero e \<longleftrightarrow> Class e = 0 \<and> Subject e = 0 \<and> Detail e = 0"

record SMTPError =
  Code :: int
  Enhanced :: EnhancedCode
  Message :: string

text \<open>\<open>SMTPError.WireLines\<close>: one wire line per line of the message.\<close>

fun WireLines_loop :: "SMTPError \<Rightarrow> string list \<Rightarrow> string" where
  "WireLines_loop e [] = []"
| "WireLines_loop e (line # lines) =
    showInt (Code e) @ (if lines \<noteq> [] then ''-'' else '' '') @
    (if \<not> IsZero (Enhanced e) then EnhancedCode_String (Enhanced e) @ '' '' else []) @
    line @ CRLF @ WireLines_loop e lines"

definition WireLines :: "SMTPError \<Rightarrow> string" where
  "WireLines e =
    (let msg = (if Message e = [] then ''Error'' else Message e)
     in WireLines_loop e (Split msg LF))"

text \<open>\<open>plainAuth.Start\<close>: the initial response of the client's PLAIN mechanism.\<close>

definition plainAuth_Start :: "string \<Rightarrow> string \<Rightarrow> string \<Rightarrow> char list" where
  "plainAuth_Start identity username password = identity @ [NUL] @ username @ [NUL] @ password"

section \<open>internal/textproto/conn.go: replies and enhanced codes\<close>

text \<open>
  \<open>Conn.WriteReply\<close>: the bytes written for a reply, \<open>-\<close> after the code on every line
  but the last.
\<close>

fun WriteReply_loop :: "int \<Rightarrow> string list \<Rightarrow> string" where
  "WriteReply_loop code [] = []"
| "WriteReply_loop code (line # lines) =
    showInt code @ [if lines \<noteq> [] then CHR ''-'' else CHR '' ''] @ line @ CRLF @
    WriteReply_loop code lines"

definition WriteReply :: "int \<Rightarrow> string list \<Rightarrow> string" where
  "WriteReply code lines = WriteReply_loop code (if lines = [] then [[]] else lines)"

definition ParseEnhancedCode :: "string \<Rightarrow> int \<times> int \<times> int \<times> string" where
  "ParseEnhancedCode text =
    (let parts = SplitN2 text (CHR '' '');
         code = hd parts;
         rest = (if length parts = 2 then parts ! 1 else []);
         segments = Split code DOT
     in if length segments \<noteq> 3 then (0, 0, 0, text)
        else
          (case (Atoi (segments ! 0), Atoi (segments ! 1), Atoi (segments ! 2)) of
            (Some c, Some s, Some d) \<Rightarrow>
              if c < 2 \<or> c > 5 then (0, 0, 0, text) else (c, s, d, rest)
          | _ \<Rightarrow> (0, 0, 0, text)))"

record Reply =
  Reply_Code :: int
  Reply_Lines :: "string list"

section \<open>smtpclient/client.go\<close>

definition replyToError :: "Reply \<Rightarrow> SMTPError" where
  "replyToError reply =
    (let msg = Join (Reply_Lines reply) [LF];
         (enhanced, msg') =
           (if length (Reply_Lines reply) > 0 then
              (case ParseEnhancedCode (Reply_Lines reply ! 0) of
                (cl, su, de, rest) \<Rightarrow>
                  if cl \<noteq> 0 then
                    (mkEnhanced cl su de, if length (Reply_Lines reply) = 1 then rest else msg)
                  else (EnhancedCodeZero, msg))
            else (EnhancedCodeZero, msg))
     in \<lparr>Code = Reply_Code reply, Enhanced = enhanced, Message = msg'\<rparr>)"

section \<open>smtpserver: server, handlers and session\<close>

record Mailbox =
  LocalPart :: string
  Domain :: string

record ReversePath =
  rp_Mailbox :: Mailbox
  Null :: bool

record ForwardPath =
  fp_Mailbox :: Mailbox

definition zeroReversePath :: ReversePath where
  "zeroReversePath = \<lparr>rp_Mailbox = \<lparr>LocalPart = [], Domain = []\<rparr>, Null = False\<rparr>"

text \<open>
  What a handler returns as its \<open>error\<close>: \<open>None\<close> is \<open>nil\<close>, \<open>IsSMTPError e\<close> a value
  for which the type assertion \<open>err.(*smtp.SMTPError)\<close> succeeds, \<open>OtherError\<close> any
  other error.
\<close>

datatype handlerError = IsSMTPError SMTPError | OtherError

text \<open>
  The session records every handler invocation, in order, in the ghost field \<open>calls\<close>.
  A handler is a function of the invocations made before it and of its arguments, so
  that a stateful handler is covered.
\<close>

datatype call =
    OnHelo string
  | OnMail ReversePath
  | OnRcpt ForwardPath
  | OnData ReversePath "ForwardPath list"
  | OnReset
  | OnVrfy string
  | Authenticate string string string

text \<open>
  The fields of \<open>Server\<close> that the session reads.  \<open>tlsConfig\<close> and \<open>resetHandler\<close> say
  whether the pointer is non-nil.  A data handler is given the bytes its reader will
  draw from and answers with the buffer lengths of the \<open>Read\<close> calls it makes and its
  result.
\<close>

record Server =
  hostname :: string
  maxMessageSize :: int
  maxRecipients :: int
  tlsConfig :: bool
  heloHandler :: "(call list \<Rightarrow> string \<Rightarrow> handlerError option) option"
  mailHandler :: "(call list \<Rightarrow> ReversePath \<Rightarrow> handlerError option) option"
  rcptHandler :: "(call list \<Rightarrow> ForwardPath \<Rightarrow> handlerError option) option"
  dataHandler :: "(call list \<Rightarrow> ReversePath \<Rightarrow> ForwardPath list \<Rightarrow> char list
                    \<Rightarrow> nat list \<times> handlerError option) option"
  resetHandler :: bool
  vrfyHandler :: "(call list \<Rightarrow> string \<Rightarrow> string \<times> handlerError option) option"
  authHandler :: "(call list \<Rightarrow> string \<Rightarrow> string \<Rightarrow> string \<Rightarrow> handlerError option) option"
  submissionMode :: bool
  maxInvalidCmds :: int

text \<open>
  Functions of other packages that the session calls and that no property below
  depends on are parameters: the Go standard library's \<open>strings.ToUpper\<close>,
  \<open>strings.TrimSpace\<close>, \<open>strings.Fields\<close>, \<open>fmt.Sscanf\<close> with \<open>%d\<close>, base64
  \<open>StdEncoding\<close>, the clock read by the CRAM-MD5 challenge (\<open>UnixNano\<close> and \<open>Unix\<close>),
  the TLS handshake, the address parsers of the smtp package, and the runtime's
  allocator: \<open>makeBytes n\<close> says whether \<open>make([]byte, n)\<close> returns a slice (it panics
  with \<open>makeslice: len out of range\<close> or the runtime stops with \<open>out of memory\<close>
  otherwise).  \<open>tlsHandshake\<close> maps
  the unread bytes of the connection to the handshake's success and to the bytes that
  can be read afterwards (on success, the plaintext carried by the TLS connection, read
  through the fresh reader of \<open>ReplaceConn\<close>).
\<close>

record env =
  ToUpper :: "string \<Rightarrow> string"
  TrimSpace :: "string \<Rightarrow> string"
  Fields :: "string \<Rightarrow> string list"
  Sscanf_d :: "string \<Rightarrow> int option"
  base64Decode :: "string \<Rightarrow> char list option"
  base64Encode :: "char list \<Rightarrow> string"
  timeNow :: "call list \<Rightarrow> int \<times> int"
  tlsHandshake :: "char list \<Rightarrow> bool \<times> char list"
  ParseReversePath :: "string \<Rightarrow> ReversePath option"
  ParseForwardPath :: "string \<Rightarrow> ForwardPath option"
  makeBytes :: "int \<Rightarrow> bool"

datatype sessionState = stateNew | stateGreeted | stateMail | stateRcpt | stateData

text \<open>The \<open>iota\<close> values of the states, for the comparisons \<open>s.state < stateGreeted\<close>.\<close>

fun stateOrd :: "sessionState \<Rightarrow> nat" where
  "stateOrd stateNew = 0"
| "stateOrd stateGreeted = 1"
| "stateOrd stateMail = 2"
| "stateOrd stateRcpt = 3"
| "stateOrd stateData = 4"

text \<open>
  \<open>conn_r\<close> is the unread input of the connection, \<open>conn_w\<close> everything written to it
  (every reply is flushed; write errors are ignored by the session and not modelled).
  \<open>fault\<close> is not a field of the source: it is \<open>None\<close> as long as the goroutine runs
  and holds the runtime failure that stopped it otherwise.
\<close>

record session =
  conn_r :: "char list"
  conn_w :: "char list"
  state :: sessionState
  clientHostname :: string
  esmtp :: bool
  tls :: bool
  authenticated :: bool
  invalidCmds :: int
  reversePath :: ReversePath
  forwardPaths :: "ForwardPath list"
  bdatBuffer :: "char list"
  calls :: "call list"
  fault :: "error option"

definition newSession :: "char list \<Rightarrow> session" where
  "newSession input =
    \<lparr>conn_r = input, conn_w = [], state = stateNew, clientHostname = [], esmtp = False,
     tls = False, authenticated = False, invalidCmds = 0, reversePath = zeroReversePath,
     forwardPaths = [], bdatBuffer = [], calls = [], fault = None\<rparr>"

definition parseCommand :: "env \<Rightarrow> string \<Rightarrow> string \<times> string" where
  "parseCommand ev line =
    (case Cut line (CHR '' '') of (verb, args, found) \<Rightarrow> (ToUpper ev verb, args))"

definition reply :: "int \<Rightarrow> EnhancedCode \<Rightarrow> string \<Rightarrow> session \<Rightarrow> session" where
  "reply code enhanced msg s =
    s\<lparr>conn_w := conn_w s @
        WriteReply code [if \<not> IsZero enhanced then EnhancedCode_String enhanced @ '' '' @ msg else msg]\<rparr>"

definition replyMulti :: "int \<Rightarrow> string list \<Rightarrow> session \<Rightarrow> session" where
  "replyMulti code lines s = s\<lparr>conn_w := conn_w s @ WriteReply code lines\<rparr>"

text \<open>
  The branch every handler's error goes through: an \<open>SMTPError\<close> is replied with its
  own code, enhanced code and message, any other error with the given fallback.
\<close>

definition replyHandlerError ::
    "handlerError \<Rightarrow> int \<Rightarrow> EnhancedCode \<Rightarrow> string \<Rightarrow> session \<Rightarrow> session" where
  "replyHandlerError err code enhanced msg s =
    (case err of
      IsSMTPError e \<Rightarrow> reply (Code e) (Enhanced e) (Message e) s
    | OtherError \<Rightarrow> reply code enhanced msg s)"

definition resetTransaction :: "Server \<Rightarrow> session \<Rightarrow> session" where
  "resetTransaction srv s =
    (let s1 = s\<lparr>reversePath := zeroReversePath, forwardPaths := [], bdatBuffer := []\<rparr>
     in if resetHandler srv then s1\<lparr>calls := calls s1 @ [OnReset]\<rparr> else s1)"

text \<open>The lines of the EHLO response after the state has been updated.\<close>

definition ehloLines :: "Server \<Rightarrow> string \<Rightarrow> session \<Rightarrow> string list" where
  "ehloLines srv args s =
    [hostname srv @ '' Hello '' @ args] @
    (if maxMessageSize srv > 0 then [''SIZE '' @ showInt (maxMessageSize srv)] else []) @
    [''PIPELINING'', ''8BITMIME'', ''ENHANCEDSTATUSCODES'', ''DSN'', ''SMTPUTF8'', ''CHUNKING''] @
    (if tlsConfig srv \<and> \<not> tls s then [''STARTTLS''] else []) @
    (if authHandler srv \<noteq> None \<and> \<not> authenticated s then [''AUTH PLAIN LOGIN CRAM-MD5''] else [])"

definition handleEHLO :: "Server \<Rightarrow> string \<Rightarrow> session \<Rightarrow> session" where
  "handleEHLO srv args s =
    (if args = [] then
       reply ReplySyntaxParamError EnhancedCodeSyntaxError ''EHLO requires a hostname'' s
     else
       (case (case heloHandler srv of
                None \<Rightarrow> (None, s)
              | Some h \<Rightarrow> (h (calls s) args, s\<lparr>calls := calls s @ [OnHelo args]\<rparr>)) of
         (Some err, s1) \<Rightarrow>
           replyHandlerError err ReplyLocalError EnhancedCodeOtherNetwork ''Internal error'' s1
       | (None, s1) \<Rightarrow>
           (let s2 = (resetTransaction srv s1)
                       \<lparr>clientHostname := args, esmtp := True, state := stateGreeted\<rparr>
            in replyMulti ReplyOK (ehloLines srv args s2) s2)))"

definition handleHELO :: "Server \<Rightarrow> string \<Rightarrow> session \<Rightarrow> session" where
  "handleHELO srv args s =
    (if args = [] then
       reply ReplySyntaxParamError EnhancedCodeSyntaxError ''HELO requires a hostname'' s
     else
       (case (case heloHandler srv of
                None \<Rightarrow> (None, s)
              | Some h \<Rightarrow> (h (calls s) args, s\<lparr>calls := calls s @ [OnHelo args]\<rparr>)) of
         (Some err, s1) \<Rightarrow>
           replyHandlerError err ReplyLocalError EnhancedCodeOtherNetwork ''Internal error'' s1
       | (None, s1) \<Rightarrow>
           (let s2 = (resetTransaction srv s1)
                       \<lparr>clientHostname := args, esmtp := False, state := stateGreeted\<rparr>
            in reply ReplyOK EnhancedCodeOK (hostname srv @ '' Hello '' @ args) s2)))"

definition handleMAIL :: "env \<Rightarrow> Server \<Rightarrow> string \<Rightarrow> session \<Rightarrow> session" where
  "handleMAIL ev srv args s =
    (if stateOrd (state s) < stateOrd stateGreeted then
       reply ReplyBadSequence EnhancedCodeInvalidCommand ''Send EHLO/HELO first'' s
     else if stateOrd (state s) \<ge> stateOrd stateMail then
       reply ReplyBadSequence EnhancedCodeInvalidCommand ''MAIL already specified'' s
     else if submissionMode srv \<and> \<not> authenticated s then
       reply ReplyAuthRequired EnhancedCodeAuthRequired ''Authentication required'' s
     else if take 5 (ToUpper ev args) \<noteq> ''FROM:'' then
       reply ReplySyntaxParamError EnhancedCodeSyntaxError ''Syntax: MAIL FROM:<address>'' s
     else
       (case ParseReversePath ev (TrimSpace ev (fst (Cut (drop 5 args) (CHR '' '')))) of
         None \<Rightarrow>
           reply ReplySyntaxParamError EnhancedCodeBadSenderSyntax ''Invalid sender address'' s
       | Some rp \<Rightarrow>
           (case (case mailHandler srv of
                    None \<Rightarrow> (None, s)
                  | Some h \<Rightarrow> (h (calls s) rp, s\<lparr>calls := calls s @ [OnMail rp]\<rparr>)) of
             (Some err, s1) \<Rightarrow>
               replyHandlerError err ReplyLocalError EnhancedCodeOtherNetwork ''Internal error'' s1
           | (None, s1) \<Rightarrow>
               reply ReplyOK EnhancedCodeOtherAddress ''Originator ok''
                 (s1\<lparr>reversePath := rp, forwardPaths := [], state := stateMail\<rparr>))))"

definition handleRCPT :: "env \<Rightarrow> Server \<Rightarrow> string \<Rightarrow> session \<Rightarrow> session" where
  "handleRCPT ev srv args s =
    (if stateOrd (state s) < stateOrd stateMail then
       reply ReplyBadSequence EnhancedCodeInvalidCommand ''Send MAIL first'' s
     else if int (length (forwardPaths s)) \<ge> maxRecipients srv then
       reply ReplyInsufficientStorage EnhancedCodeTooManyRecipients ''Too many recipients'' s
     else if take 3 (ToUpper ev args) \<noteq> ''TO:'' then
       reply ReplySyntaxParamError EnhancedCodeSyntaxError ''Syntax: RCPT TO:<address>'' s
     else
       (case ParseForwardPath ev (TrimSpace ev (fst (Cut (drop 3 args) (CHR '' '')))) of
         None \<Rightarrow>
           reply ReplySyntaxParamError EnhancedCodeBadDestSyntax ''Invalid recipient address'' s
       | Some fp \<Rightarrow>
           (case (case rcptHandler srv of
                    None \<Rightarrow> (None, s)
                  | Some h \<Rightarrow> (h (calls s) fp, s\<lparr>calls := calls s @ [OnRcpt fp]\<rparr>)) of
             (Some err, s1) \<Rightarrow>
               replyHandlerError err ReplyLocalError EnhancedCodeOtherNetwork ''Internal error'' s1
           | (None, s1) \<Rightarrow>
               reply ReplyOK EnhancedCodeDestValid ''Recipient ok''
                 (s1\<lparr>forwardPaths := forwardPaths s1 @ [fp],
                     state := (if stateOrd (state s1) < stateOrd stateRcpt then stateRcpt
                               else state s1)\<rparr>))))"

subsection \<open>DATA and BDAT\<close>

text \<open>
  \<open>io.Copy(io.Discard, reader)\<close> reads into an 8192-byte buffer until the reader
  returns an error.  Every \<open>Read\<close> that returns no error makes progress on the reader,
  which is what lets the loop be defined as a total function.
\<close>

definition readerMeasure :: "dotReader \<Rightarrow> nat" where
  "readerMeasure d =
    2 * length (dr_r d) + (if dr_state d = dotStateDot \<or> dr_state d = dotStateDotCR then 1 else 0)"

lemma dotRead_loop_progress:
  "0 < plen \<Longrightarrow> dotRead_loop plen out d = (out', None, d') \<Longrightarrow>
   (if out = [] then readerMeasure d' < readerMeasure d else readerMeasure d' \<le> readerMeasure d)"
proof (induction plen out d rule: dotRead_loop.induct)
  case (1 plen out d)
  show ?case
  proof (cases "length out < plen")
    case False
    with "1.prems" show ?thesis by (subst (asm) dotRead_loop.simps) auto
  next
    case True
    show ?thesis
    proof (cases "dr_r d")
      case Nil
      with True "1.prems" show ?thesis
        by (subst (asm) dotRead_loop.simps) (auto simp: readerMeasure_def split: if_splits)
    next
      case (Cons b rest)
      from "1.prems"(2) have e: "dotRead_loop plen out d = (out', None, d')" .
      note e' = e[unfolded dotRead_loop.simps[of plen out d]]
      show ?thesis
        using "1.IH"[OF True Cons] "1.prems"(1) e' True Cons
        by (cases "dr_state d") (auto simp: readerMeasure_def split: if_splits)
    qed
  qed
qed

lemma dotReader_Read_progress:
  assumes "(out, None, d') = dotReader_Read 8192 d"
  shows "readerMeasure d' < readerMeasure d"
proof -
  from assms have "dotRead_loop 8192 [] d = (out, None, d')"
    by (auto simp: dotReader_Read_def split: if_splits)
  from dotRead_loop_progress[OF _ this] show ?thesis by simp
qed

function discard_loop :: "dotReader \<Rightarrow> dotReader" where
  "discard_loop d =
    (case dotReader_Read 8192 d of
      (out, err, d') \<Rightarrow> if err \<noteq> None then d' else discard_loop d')"
  by pat_completeness auto
termination
  by (relation "measure readerMeasure") (auto dest: dotReader_Read_progress)

declare discard_loop.simps [simp del]

text \<open>The \<open>Read\<close> calls a data handler makes on the body reader.\<close>

fun handlerReads :: "nat list \<Rightarrow> dotReader \<Rightarrow> dotReader" where
  "handlerReads [] d = d"
| "handlerReads (k # ks) d = handlerReads ks (snd (snd (dotReader_Read k d)))"

definition handleDATA :: "Server \<Rightarrow> session \<Rightarrow> session" where
  "handleDATA srv s =
    (if stateOrd (state s) < stateOrd stateRcpt then
       reply ReplyBadSequence EnhancedCodeInvalidCommand ''Send RCPT first'' s
     else
       (let s1 = (reply ReplyStartMailInput EnhancedCodeZero
                    ''Start mail input; end with <CRLF>.<CRLF>'' s)\<lparr>state := stateData\<rparr>;
            reader = newDotReader (conn_r s1)
        in case dataHandler srv of
             None \<Rightarrow>
               (let s2 = s1\<lparr>conn_r := dr_r (discard_loop reader)\<rparr>
                in (resetTransaction srv (reply ReplyOK EnhancedCodeOK ''Message accepted'' s2))
                     \<lparr>state := stateGreeted\<rparr>)
           | Some h \<Rightarrow>
               (case h (calls s1) (reversePath s1) (forwardPaths s1) (conn_r s1) of
                 (ks, err) \<Rightarrow>
                   (let s2 = s1\<lparr>conn_r := dr_r (discard_loop (handlerReads ks reader)),
                                calls := calls s1 @ [OnData (reversePath s1) (forwardPaths s1)]\<rparr>
                    in case err of
                         Some e \<Rightarrow>
                           (resetTransaction srv
                              (replyHandlerError e ReplyLocalError EnhancedCodeOtherNetwork
                                 ''Internal error'' s2))\<lparr>state := stateGreeted\<rparr>
                       | None \<Rightarrow>
                           (resetTransaction srv
                              (reply ReplyOK EnhancedCodeOK ''Message accepted'' s2))
                             \<lparr>state := stateGreeted\<rparr>))))"

text \<open>
  In \<open>handleBDAT\<close>, the chunk is allocated with \<open>make([]byte, size)\<close> before anything
  is read, whatever the size announced by the client: when the allocation fails the
  handler does not return, which is the result \<open>Inl (ErrAlloc size)\<close>.  Then
  \<open>io.ReadFull\<close> either delivers exactly \<open>size\<close> bytes or fails having consumed what
  there was; on failure the handler logs and returns without a reply.
\<close>

definition handleBDAT :: "env \<Rightarrow> Server \<Rightarrow> string \<Rightarrow> session \<Rightarrow> error + session" where
  "handleBDAT ev srv args s =
    (if stateOrd (state s) < stateOrd stateRcpt then
       Inr (reply ReplyBadSequence EnhancedCodeInvalidCommand ''Send RCPT first'' s)
     else
       (let parts = Fields ev args
        in if length parts < 1 then
             Inr (reply ReplySyntaxParamError EnhancedCodeSyntaxError
                    ''Syntax: BDAT <size> [LAST]'' s)
           else
             (case Sscanf_d ev (parts ! 0) of
               None \<Rightarrow>
                 Inr (reply ReplySyntaxParamError EnhancedCodeSyntaxError ''Invalid BDAT size'' s)
             | Some sz \<Rightarrow>
                 if sz < 0 then
                   Inr (reply ReplySyntaxParamError EnhancedCodeSyntaxError
                          ''Invalid BDAT size'' s)
                 else if \<not> makeBytes ev sz then Inl (ErrAlloc sz)
                 else if sz > 0 \<and> length (conn_r s) < nat sz then Inr (s\<lparr>conn_r := []\<rparr>)
                 else
                   Inr (let isLast = (length parts \<ge> 2 \<and> ToUpper ev (parts ! 1) = ''LAST'');
                        s1 = s\<lparr>conn_r := drop (nat sz) (conn_r s),
                               bdatBuffer := bdatBuffer s @ take (nat sz) (conn_r s)\<rparr>
                    in if isLast then
                         (case dataHandler srv of
                           None \<Rightarrow>
                             (resetTransaction srv
                                (reply ReplyOK EnhancedCodeOK ''Message accepted'' s1))
                               \<lparr>state := stateGreeted\<rparr>
                         | Some h \<Rightarrow>
                             (case h (calls s1) (reversePath s1) (forwardPaths s1) (bdatBuffer s1) of
                               (ks, err) \<Rightarrow>
                                 (let s2 = s1\<lparr>calls := calls s1 @
                                                [OnData (reversePath s1) (forwardPaths s1)]\<rparr>
                                  in case err of
                                       Some e \<Rightarrow>
                                         (resetTransaction srv
                                            (replyHandlerError e ReplyLocalError
                                               EnhancedCodeOtherNetwork ''Internal error'' s2))
                                           \<lparr>state := stateGreeted\<rparr>
                                     | None \<Rightarrow>
                                         (resetTransaction srv
                                            (reply ReplyOK EnhancedCodeOK ''Message accepted'' s2))
                                           \<lparr>state := stateGreeted\<rparr>)))
                       else reply ReplyOK EnhancedCodeOK (showInt sz @ '' bytes received'') s1))))"

subsection \<open>RSET, NOOP, QUIT, VRFY\<close>

definition handleRSET :: "Server \<Rightarrow> session \<Rightarrow> session" where
  "handleRSET srv s =
    (let s1 = resetTransaction srv s;
         s2 = (if stateOrd (state s1) > stateOrd stateGreeted then s1\<lparr>state := stateGreeted\<rparr> else s1)
     in reply ReplyOK EnhancedCodeOK ''Reset ok'' s2)"

definition handleNOOP :: "session \<Rightarrow> session" where
  "handleNOOP s = reply ReplyOK EnhancedCodeOK ''OK'' s"

definition handleQUIT :: "Server \<Rightarrow> session \<Rightarrow> session" where
  "handleQUIT srv s =
    reply ReplyServiceClosing EnhancedCodeOK (hostname srv @ '' closing connection'') s"

definition handleVRFY :: "Server \<Rightarrow> string \<Rightarrow> session \<Rightarrow> session" where
  "handleVRFY srv args s =
    (case vrfyHandler srv of
      Some h \<Rightarrow>
        (case h (calls s) args of
          (result, err) \<Rightarrow>
            (let s1 = s\<lparr>calls := calls s @ [OnVrfy args]\<rparr>
             in case err of
                  Some e \<Rightarrow>
                    replyHandlerError e ReplyLocalError EnhancedCodeOtherNetwork ''Internal error'' s1
                | None \<Rightarrow> reply ReplyOK EnhancedCodeOK result s1))
    | None \<Rightarrow>
        reply ReplyCannotVRFY EnhancedCodeOK ''Cannot VRFY user, but will accept message'' s)"

subsection \<open>AUTH\<close>

text \<open>\<open>splitNull\<close>: \<open>cur\<close> holds \<open>data[start:i]\<close>.\<close>

fun splitNull_loop :: "char list \<Rightarrow> char list \<Rightarrow> string list \<Rightarrow> string list" where
  "splitNull_loop [] cur parts = parts @ [cur]"
| "splitNull_loop (b # data) cur parts =
    (if b = NUL then splitNull_loop data [] (parts @ [cur])
     else splitNull_loop data (cur @ [b]) parts)"

definition splitNull :: "char list \<Rightarrow> string list" where
  "splitNull data = splitNull_loop data [] []"

text \<open>
  The last step of the three mechanisms: the call of \<open>Authenticate\<close> and the reply.
  (\<open>handleAUTH\<close> has checked that the handler is not nil.)
\<close>

definition finishAuth :: "Server \<Rightarrow> string \<Rightarrow> string \<Rightarrow> string \<Rightarrow> session \<Rightarrow> session" where
  "finishAuth srv mechanism username password s =
    (case authHandler srv of
      None \<Rightarrow> s
    | Some h \<Rightarrow>
        (let s1 = s\<lparr>calls := calls s @ [Authenticate mechanism username password]\<rparr>
         in case h (calls s) mechanism username password of
              Some err \<Rightarrow>
                replyHandlerError err ReplyAuthFailed EnhancedCodeAuthCredentials
                  ''Authentication failed'' s1
            | None \<Rightarrow>
                reply ReplyAuthOK EnhancedCodeOK ''Authentication successful''
                  (s1\<lparr>authenticated := True\<rparr>)))"

text \<open>
  One challenge and its response, as each mechanism does it: reply 334 with the
  challenge, read a line, give up on a read error, on \<open>*\<close> and on invalid base64.
  \<open>Inl\<close> is the session at the early return, \<open>Inr\<close> the decoded response.
\<close>

definition challengeResponse :: "env \<Rightarrow> string \<Rightarrow> session \<Rightarrow> session + (char list \<times> session)" where
  "challengeResponse ev challenge s =
    (let s1 = reply ReplyAuthContinue EnhancedCodeZero challenge s
     in case Conn_ReadLine MaxCommandLineLen (conn_r s1) of
          (Inl e, r') \<Rightarrow> Inl (s1\<lparr>conn_r := r'\<rparr>)
        | (Inr line, r') \<Rightarrow>
            (let s2 = s1\<lparr>conn_r := r'\<rparr>
             in if line = ''*'' then
                  Inl (reply ReplySyntaxParamError EnhancedCodeInvalidCommand
                         ''Authentication cancelled'' s2)
                else
                  (case base64Decode ev line of
                    None \<Rightarrow>
                      Inl (reply ReplySyntaxParamError EnhancedCodeSyntaxError ''Invalid base64'' s2)
                  | Some decoded \<Rightarrow> Inr (decoded, s2))))"

definition authPLAIN :: "env \<Rightarrow> Server \<Rightarrow> string \<Rightarrow> session \<Rightarrow> session" where
  "authPLAIN ev srv initialResp s =
    (case (if initialResp \<noteq> [] \<and> initialResp \<noteq> ''='' then
             (case base64Decode ev initialResp of
               None \<Rightarrow>
                 Inl (reply ReplySyntaxParamError EnhancedCodeSyntaxError ''Invalid base64'' s)
             | Some decoded \<Rightarrow> Inr (decoded, s))
           else challengeResponse ev [] s) of
      Inl s' \<Rightarrow> s'
    | Inr (decoded, s') \<Rightarrow>
        (let parts = splitNull decoded
         in if length parts \<noteq> 3 then
              reply ReplySyntaxParamError EnhancedCodeSyntaxError ''Invalid PLAIN data'' s'
            else finishAuth srv ''PLAIN'' (parts ! 1) (parts ! 2) s'))"

definition authLOGIN :: "env \<Rightarrow> Server \<Rightarrow> session \<Rightarrow> session" where
  "authLOGIN ev srv s =
    (case challengeResponse ev (base64Encode ev ''Username:'') s of
      Inl s' \<Rightarrow> s'
    | Inr (userBytes, s1) \<Rightarrow>
        (case challengeResponse ev (base64Encode ev ''Password:'') s1 of
          Inl s' \<Rightarrow> s'
        | Inr (passBytes, s2) \<Rightarrow> finishAuth srv ''LOGIN'' userBytes passBytes s2))"

definition authCRAMMD5 :: "env \<Rightarrow> Server \<Rightarrow> session \<Rightarrow> session" where
  "authCRAMMD5 ev srv s =
    (let challenge = (case timeNow ev (calls s) of
                       (nanos, secs) \<Rightarrow>
                         ''<'' @ showInt nanos @ ''.'' @ showInt secs @ ''@'' @ hostname srv @ ''>'')
     in case challengeResponse ev (base64Encode ev challenge) s of
          Inl s' \<Rightarrow> s'
        | Inr (resp, s1) \<Rightarrow>
            if CHR '' '' \<notin> set resp then
              reply ReplySyntaxParamError EnhancedCodeSyntaxError ''Invalid CRAM-MD5 response'' s1
            else
              (let spaceIdx = length resp - 1 - length (takeWhile (\<lambda>b. b \<noteq> CHR '' '') (rev resp))
               in finishAuth srv ''CRAM-MD5'' (take spaceIdx resp)
                    (challenge @ '':'' @ drop (spaceIdx + 1) resp) s1))"

definition handleAUTH :: "env \<Rightarrow> Server \<Rightarrow> string \<Rightarrow> session \<Rightarrow> session" where
  "handleAUTH ev srv args s =
    (if authHandler srv = None then
       reply ReplyCommandNotImpl EnhancedCodeInvalidCommand ''AUTH not available'' s
     else if stateOrd (state s) < stateOrd stateGreeted then
       reply ReplyBadSequence EnhancedCodeInvalidCommand ''Send EHLO/HELO first'' s
     else if stateOrd (state s) \<ge> stateOrd stateMail then
       reply ReplyBadSequence EnhancedCodeInvalidCommand
         ''AUTH not allowed during mail transaction'' s
     else if authenticated s then
       reply ReplyBadSequence EnhancedCodeInvalidCommand ''Already authenticated'' s
     else
       (case Cut args (CHR '' '') of
         (mechanism, initialResp, found) \<Rightarrow>
           if ToUpper ev mechanism = ''PLAIN'' then authPLAIN ev srv initialResp s
           else if ToUpper ev mechanism = ''LOGIN'' then authLOGIN ev srv s
           else if ToUpper ev mechanism = ''CRAM-MD5'' then authCRAMMD5 ev srv s
           else reply ReplySyntaxParamError EnhancedCodeInvalidParams
                  ''Unrecognized authentication mechanism'' s))"

subsection \<open>STARTTLS\<close>

definition handleSTARTTLS :: "env \<Rightarrow> Server \<Rightarrow> session \<Rightarrow> bool \<times> session" where
  "handleSTARTTLS ev srv s =
    (if \<not> tlsConfig srv then
       (False, reply ReplyCommandNotImpl EnhancedCodeInvalidCommand ''STARTTLS not available'' s)
     else if tls s then
       (False, reply ReplyBadSequence EnhancedCodeInvalidCommand ''Already running TLS'' s)
     else
       (let s1 = reply ReplyServiceReady EnhancedCodeZero ''Ready to start TLS'' s
        in case tlsHandshake ev (conn_r s1) of
             (ok, r') \<Rightarrow>
               if \<not> ok then (False, s1\<lparr>conn_r := r'\<rparr>)
               else
                 (True,
                  (resetTransaction srv (s1\<lparr>conn_r := r', tls := True\<rparr>))
                    \<lparr>state := stateNew, clientHostname := [], esmtp := False\<rparr>)))"

subsection \<open>The command loop of handleConn\<close>

text \<open>
  The reply to an unrecognized command and to a command with a NUL byte, with the
  count and the cap.  The boolean says whether the loop goes on.
\<close>

definition invalidCommand :: "Server \<Rightarrow> string \<Rightarrow> session \<Rightarrow> bool \<times> session" where
  "invalidCommand srv msg s =
    (let s1 = reply ReplySyntaxError EnhancedCodeInvalidCommand msg s;
         s2 = s1\<lparr>invalidCmds := invalidCmds s1 + 1\<rparr>
     in if maxInvalidCmds srv > 0 \<and> invalidCmds s2 \<ge> maxInvalidCmds srv then
          (False, reply ReplyServiceNotAvailable EnhancedCodeOtherNetwork
                    ''Too many errors, closing connection'' s2)
        else (True, s2))"

text \<open>
  The \<open>switch verb\<close> of the loop.  A runtime failure in a handler stops the goroutine:
  the loop ends there with the failure recorded in \<open>fault\<close>, nothing more being read or
  written.
\<close>

definition dispatch :: "env \<Rightarrow> Server \<Rightarrow> string \<Rightarrow> string \<Rightarrow> session \<Rightarrow> bool \<times> session" where
  "dispatch ev srv verb args s =
    (if verb = ''EHLO'' then (True, handleEHLO srv args s)
     else if verb = ''HELO'' then (True, handleHELO srv args s)
     else if verb = ''MAIL'' then (True, handleMAIL ev srv args s)
     else if verb = ''RCPT'' then (True, handleRCPT ev srv args s)
     else if verb = ''DATA'' then (True, handleDATA srv s)
     else if verb = ''RSET'' then (True, handleRSET srv s)
     else if verb = ''NOOP'' then (True, handleNOOP s)
     else if verb = ''QUIT'' then (False, handleQUIT srv s)
     else if verb = ''VRFY'' then (True, handleVRFY srv args s)
     else if verb = ''EXPN'' then
       (True, reply ReplyCommandNotImpl EnhancedCodeInvalidCommand ''EXPN not implemented'' s)
     else if verb = ''STARTTLS'' then (True, snd (handleSTARTTLS ev srv s))
     else if verb = ''AUTH'' then (True, handleAUTH ev srv args s)
     else if verb = ''BDAT'' then
       (case handleBDAT ev srv args s of
         Inl e \<Rightarrow> (False, s\<lparr>fault := Some e\<rparr>)
       | Inr s' \<Rightarrow> (True, s'))
     else invalidCommand srv ''Command not recognized'' s)"

text \<open>
  One turn of the loop: read a line (a read error ends the session), reject a NUL,
  split and dispatch.  The shutdown signal, checked at the top of the loop in the
  source, belongs to another goroutine and is not modelled.
\<close>

definition cmdStep :: "env \<Rightarrow> Server \<Rightarrow> session \<Rightarrow> bool \<times> session" where
  "cmdStep ev srv s =
    (case Conn_ReadLine MaxCommandLineLen (conn_r s) of
      (Inl err, r') \<Rightarrow> (False, s\<lparr>conn_r := r'\<rparr>)
    | (Inr line, r') \<Rightarrow>
        if NUL \<in> set line then invalidCommand srv ''NUL not allowed in commands'' (s\<lparr>conn_r := r'\<rparr>)
        else
          (case parseCommand ev line of
            (verb, args) \<Rightarrow> dispatch ev srv verb args (s\<lparr>conn_r := r'\<rparr>)))"

text \<open>
  The loop, with a bound on the number of turns: \<open>None\<close> when the bound is reached
  before the loop has ended, \<open>Some s\<close> with the session as it is when \<open>handleConn\<close>
  returns or, when \<open>fault s\<close> is set, when a runtime failure stops it.
\<close>

fun cmdLoop :: "nat \<Rightarrow> env \<Rightarrow> Server \<Rightarrow> session \<Rightarrow> session option" where
  "cmdLoop 0 ev srv s = None"
| "cmdLoop (Suc n) ev srv s =
    (case cmdStep ev srv s of
      (continue, s') \<Rightarrow> if continue then cmdLoop n ev srv s' else Some s')"

text \<open>\<open>handleConn\<close> from the greeting banner on, for a connection whose input is \<open>input\<close>.\<close>

definition handleConn :: "nat \<Rightarrow> env \<Rightarrow> Server \<Rightarrow> char list \<Rightarrow> session option" where
  "handleConn fuel ev srv input =
    cmdLoop fuel ev srv
      (replyMulti ReplyServiceReady [hostname srv @ '' ESMTP ready''] (newSession input))"
section \<open>Auxiliary definitions\<close>

subsection \<open>Canonical forms and tables taken from the specification\<close>

text \<open>
  The canonical form named by the specification's round-trip law: CRLF is appended
  when the data does not already end with CRLF.
\<close>

definition specCanonCRLF :: "char list \<Rightarrow> char list" where
  "specCanonCRLF B =
     (if 2 \<le> length B \<and> drop (length B - 2) B = CRLF then B else B @ CRLF)"

text \<open>The allowed verbs of each state, as the specification's state-machine table lists them.\<close>

fun specAllowedVerbs :: "sessionState \<Rightarrow> string list" where
  "specAllowedVerbs stateNew = [''EHLO'', ''HELO'', ''NOOP'', ''RSET'', ''QUIT'']"
| "specAllowedVerbs stateGreeted =
     [''EHLO'', ''HELO'', ''MAIL'', ''AUTH'', ''STARTTLS'', ''VRFY'', ''NOOP'', ''RSET'', ''QUIT'']"
| "specAllowedVerbs stateMail = [''RCPT'', ''RSET'', ''NOOP'', ''QUIT'']"
| "specAllowedVerbs stateRcpt = [''RCPT'', ''DATA'', ''BDAT'', ''RSET'', ''NOOP'', ''QUIT'']"
| "specAllowedVerbs stateData = []"

subsection \<open>Notions used to state and prove the properties\<close>

text \<open>
  \<open>stuff bl xs\<close> is what the writer emits for \<open>xs\<close> when its \<open>beginLine\<close> flag is
  \<open>bl\<close>; \<open>nxt b\<close> is the reader's state after it has emitted the byte \<open>b\<close>;
  \<open>lineState st bl\<close> relates a reader state between two lines or inside one to the
  writer's flag; \<open>endsLine bl xs\<close> says that after \<open>xs\<close> the writer is at the beginning of
  a line; \<open>stAfter st ys\<close> is the reader's state after emitting \<open>ys\<close> from \<open>st\<close>.
\<close>

fun stuff :: "bool \<Rightarrow> char list \<Rightarrow> char list" where
  "stuff bl [] = []"
| "stuff bl (b # xs) = (if bl \<and> b = DOT then [DOT] else []) @ [b] @ stuff (b = LF) xs"

definition nxt :: "char \<Rightarrow> dotState" where
  "nxt b = (if b = CR then dotStateCR else if b = LF then dotStateBeginLine else dotStateLine)"

definition lineState :: "dotState \<Rightarrow> bool \<Rightarrow> bool" where
  "lineState st bl \<longleftrightarrow>
     (st = dotStateBeginLine \<or> st = dotStateLine \<or> st = dotStateCR) \<and> (bl \<longleftrightarrow> st = dotStateBeginLine)"

definition endsLine :: "bool \<Rightarrow> char list \<Rightarrow> bool" where
  "endsLine bl xs \<longleftrightarrow> (if xs = [] then bl else last xs = LF)"

definition stAfter :: "dotState \<Rightarrow> char list \<Rightarrow> dotState" where
  "stAfter st ys = (if ys = [] then st else nxt (last ys))"

text \<open>\<open>stripCR l\<close> is the line \<open>l\<close> without the CR of its terminator, when it has one.\<close>

definition stripCR :: "char list \<Rightarrow> char list" where
  "stripCR l = (if l \<noteq> [] \<and> last l = CR then butlast l else l)"

text \<open>
  \<open>frame ls\<close> is the input that carries the lines \<open>ls\<close>, each followed by CRLF.  A line
  is well framed when it holds no LF and fits the command limit of 512 bytes with its
  CRLF.  \<open>knownVerbs\<close> are the verbs with a case in the loop's switch; a bad command
  holds a NUL byte or has a verb that is not among them.  \<open>reply500\<close>, \<open>reply421\<close> and
  \<open>reply503\<close> are the wire bytes of the replies concerned.
\<close>

definition knownVerbs :: "string list" where
  "knownVerbs = [''EHLO'', ''HELO'', ''MAIL'', ''RCPT'', ''DATA'', ''RSET'', ''NOOP'', ''QUIT'',
                 ''VRFY'', ''EXPN'', ''STARTTLS'', ''AUTH'', ''BDAT'']"

definition wellFramed :: "string \<Rightarrow> bool" where
  "wellFramed l \<longleftrightarrow> LF \<notin> set l \<and> int (length l) + 2 \<le> MaxCommandLineLen"

definition badCommand :: "env \<Rightarrow> string \<Rightarrow> bool" where
  "badCommand ev l \<longleftrightarrow> NUL \<in> set l \<or> fst (parseCommand ev l) \<notin> set knownVerbs"

definition frame :: "string list \<Rightarrow> char list" where
  "frame ls = concat (map (\<lambda>l. l @ CRLF) ls)"

definition msg500 :: "string \<Rightarrow> string" where
  "msg500 l =
    (if NUL \<in> set l then ''NUL not allowed in commands'' else ''Command not recognized'')"

definition reply500 :: "string \<Rightarrow> char list" where
  "reply500 l = ''500 5.5.1 '' @ msg500 l @ CRLF"

definition reply421 :: "char list" where
  "reply421 = ''421 4.4.0 Too many errors, closing connection'' @ CRLF"

definition reply503 :: "char list" where
  "reply503 = ''503 5.5.1 Send EHLO/HELO first'' @ CRLF"

subsection \<open>A sample configuration\<close>

text \<open>
  The concrete evaluations below run the session with the default options of
  \<open>NewServer\<close> and with an environment that upper-cases ASCII letters and trims ASCII
  white space, which is what \<open>strings.ToUpper\<close> and \<open>strings.TrimSpace\<close> do on the ASCII
  lines used; the base64 decoder knows the one string of the specification's PLAIN
  scenario; the path parser knows the null path \<open><>\<close>; the TLS handshake succeeds and
  the encrypted stream carries nothing yet.  The other functions are not reached.
\<close>

definition toUpperASCII :: "char \<Rightarrow> char" where
  "toUpperASCII c =
    (case map_of (zip ''abcdefghijklmnopqrstuvwxyz'' ''ABCDEFGHIJKLMNOPQRSTUVWXYZ'') c of
      Some u \<Rightarrow> u | None \<Rightarrow> c)"

definition trimSpaceASCII :: "string \<Rightarrow> string" where
  "trimSpaceASCII s =
    rev (dropWhile (\<lambda>c. c \<in> set [CHR '' '', CHR 0x09, LF, CHR 0x0B, CHR 0x0C, CR])
      (rev (dropWhile (\<lambda>c. c \<in> set [CHR '' '', CHR 0x09, LF, CHR 0x0B, CHR 0x0C, CR]) s)))"

definition nullPath :: ReversePath where
  "nullPath = \<lparr>rp_Mailbox = \<lparr>LocalPart = [], Domain = []\<rparr>, Null = True\<rparr>"

definition sampleEnv :: env where
  "sampleEnv =
    \<lparr>ToUpper = map toUpperASCII,
     TrimSpace = trimSpaceASCII,
     Fields = (\<lambda>s. []),
     Sscanf_d = (\<lambda>s. None),
     base64Decode = (\<lambda>s. if s = ''AHRlc3R1c2VyAHRlc3RwYXNz''
                            then Some ([NUL] @ ''testuser'' @ [NUL] @ ''testpass'') else None),
     base64Encode = (\<lambda>b. []),
     timeNow = (\<lambda>c. (0, 0)),
     tlsHandshake = (\<lambda>r. (True, [])),
     ParseReversePath = (\<lambda>s. if s = ''<>'' then Some nullPath else None),
     ParseForwardPath = (\<lambda>s. None),
     makeBytes = (\<lambda>n. 0 \<le> n \<and> n \<le> 2 ^ 30)\<rparr>"

definition defaultServer :: Server where
  "defaultServer =
    \<lparr>hostname = ''localhost'', maxMessageSize = 10485760, maxRecipients = 100,
     tlsConfig = False, heloHandler = None, mailHandler = None, rcptHandler = None,
     dataHandler = None, resetHandler = False, vrfyHandler = None, authHandler = None,
     submissionMode = False, maxInvalidCmds = 10\<rparr>"

text \<open>An authentication handler that accepts, and a mail handler that rejects in two lines.\<close>

definition acceptAll :: "call list \<Rightarrow> string \<Rightarrow> string \<Rightarrow> string \<Rightarrow> handlerError option" where
  "acceptAll cs mechanism username password = None"

definition rejectingMailHandler :: "call list \<Rightarrow> ReversePath \<Rightarrow> handlerError option" where
  "rejectingMailHandler cs from =
    Some (IsSMTPError \<lparr>Code = 550, Enhanced = mkEnhanced 5 7 1,
                        Message = ''Line one'' @ [LF] @ ''Line two''\<rparr>)"

text \<open>The text of an enhanced status code, \<open>class.subject.detail\<close>, for natural numbers.\<close>

definition codeText :: "nat \<Rightarrow> nat \<Rightarrow> nat \<Rightarrow> string" where
  "codeText c s d = showNat c @ ''.'' @ showNat s @ ''.'' @ showNat d"

text \<open>
  A submission server with TLS and an authentication handler that accepts, an
  environment in which the TLS handshake succeeds and the client then sends \<open>EHLO\<close>
  and \<open>MAIL\<close> over TLS, and a VRFY handler.
\<close>

definition upgradeEnv :: env where
  "upgradeEnv =
     sampleEnv\<lparr>tlsHandshake := (\<lambda>r. (True, frame [''EHLO c.test'', ''MAIL FROM:<>'']))\<rparr>"

definition submissionServer :: Server where
  "submissionServer =
     defaultServer\<lparr>tlsConfig := True, authHandler := Some acceptAll, submissionMode := True\<rparr>"

definition vrfyEcho :: "call list \<Rightarrow> string \<Rightarrow> string \<times> handlerError option" where
  "vrfyEcho cs arg = (''<'' @ arg @ ''@localhost>'', None)"

lemmas show_eval = showInt_def showNat.simps

lemmas reply_eval = reply_def replyMulti_def WriteReply_def EnhancedCode_String_def IsZero_def
  reply_codes enhanced_codes show_eval

lemmas dot_eval = dotWire_def dotWriter_Close_def dotWriter_Write_def newDotWriter_def
  newDotReader_def dotReader_Read_def dotRead_loop.simps Let_def


lemmas run_eval = dispatch_def parseCommand_def Cut_def upgradeEnv_def sampleEnv_def
  submissionServer_def defaultServer_def toUpperASCII_def trimSpaceASCII_def newSession_def
  reply_eval Let_def

section \<open>Properties\<close>

subsection \<open>The dot-stuffed round trip\<close>

lemma loop_done: "\<not> length out < plen \<Longrightarrow> dotRead_loop plen out d = (out, None, d)"
  by (subst dotRead_loop.simps) simp

lemma loop_plain:
  "length out < plen \<Longrightarrow> st = dotStateLine \<or> st = dotStateCR \<Longrightarrow>
   dotRead_loop plen out \<lparr>dr_r = b # rest, dr_state = st\<rparr> =
   dotRead_loop plen (out @ [b]) \<lparr>dr_r = rest, dr_state = nxt b\<rparr>"
  by (subst dotRead_loop.simps) (auto simp: nxt_def)

lemma loop_bol:
  "length out < plen \<Longrightarrow> b \<noteq> DOT \<Longrightarrow>
   dotRead_loop plen out \<lparr>dr_r = b # rest, dr_state = dotStateBeginLine\<rparr> =
   dotRead_loop plen (out @ [b]) \<lparr>dr_r = rest, dr_state = nxt b\<rparr>"
  by (subst dotRead_loop.simps) (auto simp: nxt_def)

lemma loop_dotdot:
  "length out < plen \<Longrightarrow>
   dotRead_loop plen out \<lparr>dr_r = DOT # DOT # rest, dr_state = dotStateBeginLine\<rparr> =
   dotRead_loop plen (out @ [DOT]) \<lparr>dr_r = rest, dr_state = dotStateLine\<rparr>"
  by (subst dotRead_loop.simps, simp, subst dotRead_loop.simps, simp)

lemma loop_term:
  "length out < plen \<Longrightarrow>
   dotRead_loop plen out \<lparr>dr_r = [DOT, CR, LF], dr_state = dotStateBeginLine\<rparr> =
   (out, Some EOF, \<lparr>dr_r = [], dr_state = dotStateEOF\<rparr>)"
  by (subst dotRead_loop.simps, simp, subst dotRead_loop.simps, simp, subst dotRead_loop.simps, simp)

lemma lineState_nxt: "lineState (nxt b) (b = LF)"
  by (simp add: lineState_def nxt_def)

lemma loop_step:
  assumes "length out < plen" "lineState st bl"
  shows "dotRead_loop plen out \<lparr>dr_r = stuff bl (b # xs) @ t, dr_state = st\<rparr> =
         dotRead_loop plen (out @ [b]) \<lparr>dr_r = stuff (b = LF) xs @ t, dr_state = nxt b\<rparr>"
proof (cases "bl \<and> b = DOT")
  case True
  with assms have "st = dotStateBeginLine" by (simp add: lineState_def)
  with True assms(1) show ?thesis by (simp add: loop_dotdot nxt_def)
next
  case False
  show ?thesis
  proof (cases bl)
    case True
    with assms have "st = dotStateBeginLine" by (simp add: lineState_def)
    with True False assms(1) show ?thesis by (simp add: loop_bol)
  next
    case nbl: False
    with assms have "st = dotStateLine \<or> st = dotStateCR" by (auto simp add: lineState_def)
    with nbl assms(1) show ?thesis by (simp add: loop_plain)
  qed
qed

lemma loop_stuffed:
  assumes "lineState st bl" "endsLine bl xs" "length out \<le> plen"
  shows "dotRead_loop plen out \<lparr>dr_r = stuff bl xs @ [DOT, CR, LF], dr_state = st\<rparr> =
    (if plen - length out \<le> length xs then
       (out @ take (plen - length out) xs, None,
        \<lparr>dr_r = stuff (stAfter st (take (plen - length out) xs) = dotStateBeginLine)
                       (drop (plen - length out) xs) @ [DOT, CR, LF],
         dr_state = stAfter st (take (plen - length out) xs)\<rparr>)
     else (out @ xs, Some EOF, \<lparr>dr_r = [], dr_state = dotStateEOF\<rparr>))"
  using assms
proof (induction xs arbitrary: out st bl)
  case Nil
  then have st: "st = dotStateBeginLine" and bl: bl
    by (auto simp: endsLine_def lineState_def)
  show ?case
  proof (cases "length out < plen")
    case True
    then show ?thesis using st by (simp add: loop_term)
  next
    case False
    then show ?thesis using st bl by (simp add: loop_done stAfter_def)
  qed
next
  case (Cons b xs)
  show ?case
  proof (cases "length out < plen")
    case False
    with Cons.prems have "plen - length out = 0" by simp
    with False Cons.prems show ?thesis
      by (auto simp add: loop_done stAfter_def lineState_def)
  next
    case True
    have e: "endsLine (b = LF) xs"
      using Cons.prems(2) by (auto simp: endsLine_def split: if_splits)
    have l: "length (out @ [b]) \<le> plen" using True by simp
    obtain k where k: "plen - length out = Suc k"
      using True by (cases "plen - length out") auto
    then have k': "plen - length (out @ [b]) = k" by simp
    have s: "stAfter (nxt b) (take k xs) = stAfter st (b # take k xs)"
      by (simp add: stAfter_def)
    show ?thesis
      unfolding loop_step[OF True Cons.prems(1)]
        Cons.IH[OF lineState_nxt e l] k k'
      by (simp add: s)
  qed
qed

lemma dotWrite_loop_w:
  "dw_w (dotWrite_loop p d) = dw_w d @ stuff (beginLine d) p"
  by (induction p arbitrary: d) auto

lemma dotWrite_loop_beginLine:
  "beginLine (dotWrite_loop p d) = (if p = [] then beginLine d else last p = LF)"
  by (induction p arbitrary: d) auto

lemma dotWrite_loop_closed: "closed (dotWrite_loop p d) = closed d"
  by (induction p arbitrary: d) auto

lemma stuff_append:
  "stuff bl (xs @ ys) = stuff bl xs @ stuff (if xs = [] then bl else last xs = LF) ys"
  by (induction xs arbitrary: bl) auto

lemma dotWire_stuff: "dotWire B = stuff True (fuzzWant B) @ [DOT, CR, LF]"
  by (simp add: dotWire_def dotWriter_Close_def dotWriter_Write_def newDotWriter_def Let_def
      dotWrite_loop_w dotWrite_loop_beginLine dotWrite_loop_closed fuzzWant_def stuff_append)

lemma endsLine_fuzzWant: "endsLine True (fuzzWant B)"
  by (simp add: endsLine_def fuzzWant_def)

lemma stAfter_all: "endsLine bl xs \<Longrightarrow> lineState st bl \<Longrightarrow> stAfter st xs = dotStateBeginLine"
  by (auto simp: endsLine_def stAfter_def lineState_def nxt_def)

lemma lineState_stAfter: "lineState st bl \<Longrightarrow> lineState (stAfter st ys) (stAfter st ys = dotStateBeginLine)"
  by (auto simp: stAfter_def lineState_def nxt_def)

lemma endsLine_drop:
  assumes "endsLine bl xs" "lineState st bl" "k \<le> length xs"
  shows "endsLine (stAfter st (take k xs) = dotStateBeginLine) (drop k xs)"
proof (cases "k = length xs")
  case True
  then show ?thesis using assms by (simp add: endsLine_def stAfter_all)
next
  case False
  with assms(3) have "k < length xs" by simp
  then have "xs \<noteq> []" by auto
  with \<open>k < length xs\<close> show ?thesis using assms(1) by (simp add: endsLine_def)
qed

lemma readAll_stuffed:
  assumes "lineState st bl" "endsLine bl xs" "\<forall>k\<in>set ks. 0 < k" "length xs < length ks"
  shows "readAll ks b \<lparr>dr_r = stuff bl xs @ [DOT, CR, LF], dr_state = st\<rparr> =
         Some (b @ xs, None, \<lparr>dr_r = [], dr_state = dotStateEOF\<rparr>)"
  using assms
proof (induction ks arbitrary: b xs st bl)
  case Nil
  then show ?case by simp
next
  case (Cons k ks)
  have st: "st \<noteq> dotStateEOF" using Cons.prems(1) by (auto simp: lineState_def)
  have k: "0 < k" using Cons.prems(3) by simp
  show ?case
  proof (cases "k \<le> length xs")
    case True
    let ?st = "stAfter st (take k xs)"
    have 1: "lineState ?st (?st = dotStateBeginLine)"
      using Cons.prems(1) by (rule lineState_stAfter)
    have 2: "endsLine (?st = dotStateBeginLine) (drop k xs)"
      using Cons.prems(2) Cons.prems(1) True by (rule endsLine_drop)
    have 3: "\<forall>k\<in>set ks. 0 < k" using Cons.prems(3) by simp
    have 4: "length (drop k xs) < length ks" using Cons.prems(4) k True by simp
    show ?thesis
      using True st
      by (simp add: dotReader_Read_def loop_stuffed[OF Cons.prems(1) Cons.prems(2)]
          Cons.IH[OF 1 2 3 4])
  next
    case False
    then show ?thesis using st
      by (simp add: dotReader_Read_def loop_stuffed[OF Cons.prems(1) Cons.prems(2)])
  qed
qed

text \<open>
  C1, as stated, fails: the empty body reads back as the empty body, and a body that
  ends in a bare LF reads back unchanged, while the stated canonical form appends CRLF
  to both.
\<close>

theorem C1_roundtrip_counterexample:
  "readAll [512] [] (newDotReader (dotWire [])) =
     Some ([], None, \<lparr>dr_r = [], dr_state = dotStateEOF\<rparr>) \<and>
   specCanonCRLF [] = CRLF \<and>
   readAll [512] [] (newDotReader (dotWire [CHR ''a'', LF])) =
     Some ([CHR ''a'', LF], None, \<lparr>dr_r = [], dr_state = dotStateEOF\<rparr>) \<and>
   specCanonCRLF [CHR ''a'', LF] = [CHR ''a'', LF, CR, LF]"
  by (simp add: dot_eval specCanonCRLF_def)

text \<open>
  C1 (amended): for every byte sequence \<open>B\<close>, writing \<open>B\<close> through the dot-stuffing
  writer, closing it, and reading the produced bytes back through the dot-stuffing
  reader to the end yields \<open>B\<close> itself, after appending CRLF when \<open>B\<close> is not empty and
  does not end with LF.  This holds whatever the (non-empty) buffers passed to the
  successive \<open>Read\<close> calls are, once there are more calls than bytes; the reader ends in
  its EOF state with the whole wire consumed.
\<close>

theorem C1_roundtrip:
  assumes "\<forall>k\<in>set ks. 0 < k" "length B + 2 < length ks"
  shows "readAll ks [] (newDotReader (dotWire B)) =
         Some (fuzzWant B, None, \<lparr>dr_r = [], dr_state = dotStateEOF\<rparr>)"
proof -
  have "length (fuzzWant B) < length ks" using assms(2) by (simp add: fuzzWant_def)
  with assms(1) show ?thesis
    using readAll_stuffed[of dotStateBeginLine True "fuzzWant B" ks "[]"]
    by (simp add: newDotReader_def dotWire_stuff endsLine_fuzzWant lineState_def)
qed

theorem C1_roundtrip_witness:
  "readAll [1, 2, 1, 2, 1, 2] [] (newDotReader (dotWire ''.a'')) =
     Some (''.a'' @ CRLF, None, \<lparr>dr_r = [], dr_state = dotStateEOF\<rparr>)"
  using C1_roundtrip [of "[1, 2, 1, 2, 1, 2]" "''.a''"] by (simp add: fuzzWant_def)

subsection \<open>The reader's SawDotCR state\<close>

text \<open>
  With one free slot in the caller's buffer, whatever byte other than LF follows the
  dot and the CR, \<open>Read\<close> returns the dot alone and leaves the reader inside a line
  with that byte unread.
\<close>

lemma dotcr_one_slot:
  "b \<noteq> LF \<Longrightarrow>
   dotReader_Read 1 \<lparr>dr_r = b # rest, dr_state = dotStateDotCR\<rparr> =
     ([DOT], None, \<lparr>dr_r = b # rest, dr_state = dotStateLine\<rparr>)"
  unfolding dotReader_Read_def by (subst dotRead_loop.simps) simp

text \<open>
  C6: in state \<open>dotStateDotCR\<close> with a single free slot in the caller's buffer and a
  next byte \<open>X\<close> other than LF, \<open>Read\<close> emits the dot, puts \<open>X\<close> back and moves to
  \<open>dotStateLine\<close>: the CR is never emitted.  Read one byte at a time, the wire
  \<open>.\rX\r\n.\r\n\<close> yields \<open>.X\r\n\<close>; read with a large buffer it yields \<open>.\rX\r\n\<close>.
\<close>

theorem C6_dotcr_one_slot_drops_cr:
  "dotReader_Read 1 \<lparr>dr_r = [CHR ''X'', CR, LF, DOT, CR, LF], dr_state = dotStateDotCR\<rparr> =
     ([DOT], None, \<lparr>dr_r = [CHR ''X'', CR, LF, DOT, CR, LF], dr_state = dotStateLine\<rparr>) \<and>
   readAll [1, 1, 1, 1, 1] [] (newDotReader [DOT, CR, CHR ''X'', CR, LF, DOT, CR, LF]) =
     Some ([DOT, CHR ''X'', CR, LF], None, \<lparr>dr_r = [], dr_state = dotStateEOF\<rparr>) \<and>
   readAll [512] [] (newDotReader [DOT, CR, CHR ''X'', CR, LF, DOT, CR, LF]) =
     Some ([DOT, CR, CHR ''X'', CR, LF], None, \<lparr>dr_r = [], dr_state = dotStateEOF\<rparr>)"
  by (simp add: dot_eval)

subsection \<open>Conn.ReadLine and the length limit\<close>



lemma bufio_ReadLine_short:
  assumes "LF \<notin> set l" "length l < readerSize"
  shows "bufio_ReadLine (l @ LF # rest) = ((stripCR l, False, None), rest)"
proof -
  have "LF \<in> set (take readerSize (l @ LF # rest))"
    using assms(2) by (simp add: take_Cons')
  moreover have "takeWhile (\<lambda>b. b \<noteq> LF) (l @ LF # rest) = l @ takeWhile (\<lambda>b. b \<noteq> LF) (LF # rest)"
    by (rule takeWhile_append2) (use assms(1) in auto)
  then have "takeWhile (\<lambda>b. b \<noteq> LF) (l @ LF # rest) = l" by simp
  ultimately show ?thesis
    by (simp add: bufio_ReadLine_def stripCR_def Let_def)
qed







subsection \<open>Client: converting an unexpected reply into an error\<close>

text \<open>
  C9, as stated, fails for a reply of more than one line: the enhanced code is taken
  from the first line, but the prefix stays in the message.
\<close>

theorem C9_multiline_prefix_kept_counterexample:
  "replyToError \<lparr>Reply_Code = 550, Reply_Lines = [''5.7.1 first'', ''second'']\<rparr> =
     \<lparr>Code = 550, Enhanced = mkEnhanced 5 7 1, Message = ''5.7.1 first'' @ [LF] @ ''second''\<rparr>"
  by (simp add: replyToError_def ParseEnhancedCode_def SplitN2_def Cut_def Split_def Atoi_def
      isDigit_def Let_def enhanced_codes)

lemma digit_char: "k < 10 \<Longrightarrow> isDigit (''0123456789'' ! k) \<and> (of_char (''0123456789'' ! k) :: int) = 48 + int k"
proof -
  assume "k < 10"
  then have "k = 0 \<or> k = 1 \<or> k = 2 \<or> k = 3 \<or> k = 4 \<or> k = 5 \<or> k = 6 \<or> k = 7 \<or> k = 8 \<or> k = 9"
    by arith
  then show ?thesis by (elim disjE) (simp_all add: isDigit_def)
qed

lemma showNat_digits: "list_all isDigit (showNat n)"
proof (induction n rule: showNat.induct)
  case (1 n)
  show ?case
  proof (cases "n < 10")
    case True
    then show ?thesis by (subst showNat.simps) (simp add: digit_char)
  next
    case False
    then have "list_all isDigit (showNat (n div 10))" using 1 by simp
    moreover have "isDigit (''0123456789'' ! (n mod 10))" by (rule digit_char[THEN conjunct1]) simp
    ultimately show ?thesis using False by (subst showNat.simps) simp
  qed
qed

lemma showNat_nonempty: "showNat n \<noteq> []"
  by (subst showNat.simps) simp

lemma digitsVal_snoc: "digitsVal (xs @ [c]) acc = digitsVal xs acc * 10 + ((of_char c :: int) - 48)"
  by (induction xs arbitrary: acc) simp_all

lemma digitsVal_showNat: "digitsVal (showNat n) 0 = int n"
proof (induction n rule: showNat.induct)
  case (1 n)
  show ?case
  proof (cases "n < 10")
    case True
    then show ?thesis by (subst showNat.simps) (simp add: digit_char)
  next
    case False
    then have ih: "digitsVal (showNat (n div 10)) 0 = int (n div 10)" using 1 by simp
    have d: "(of_char (''0123456789'' ! (n mod 10)) :: int) = 48 + int (n mod 10)"
      by (rule digit_char[THEN conjunct2]) simp
    have "digitsVal (showNat n) 0 = int (n div 10) * 10 + int (n mod 10)"
      using False by (subst showNat.simps) (simp add: digitsVal_snoc ih d)
    then show ?thesis by (simp add: zdiv_int zmod_int)
  qed
qed

lemma isDigit_not: "isDigit c \<Longrightarrow> c \<noteq> DOT \<and> c \<noteq> CHR '' '' \<and> c \<noteq> CHR ''-'' \<and> c \<noteq> CHR ''+''"
  by (auto simp: isDigit_def)

lemma showNat_no_sep: "DOT \<notin> set (showNat n) \<and> CHR '' '' \<notin> set (showNat n)"
  using showNat_digits[of n] isDigit_not by (auto simp: list_all_iff)

lemma Atoi_showNat: "n < 2 ^ 63 \<Longrightarrow> Atoi (showNat n) = Some (int n)"
proof -
  assume b: "n < 2 ^ 63"
  have ne: "showNat n \<noteq> []" by (rule showNat_nonempty)
  have "isDigit (hd (showNat n))" using showNat_digits[of n] ne by (cases "showNat n") simp_all
  then have h: "hd (showNat n) \<noteq> CHR ''-''" "hd (showNat n) \<noteq> CHR ''+''" using isDigit_not by blast+
  have "int n < 2 ^ 63" using b by (metis of_nat_less_iff of_nat_numeral of_nat_power)
  then show ?thesis using ne h showNat_digits[of n]
    by (simp add: Atoi_def Let_def digitsVal_showNat)
qed

lemma Split_loop_nosep: "sep \<notin> set xs \<Longrightarrow> Split_loop sep xs cur = [cur @ xs]"
  by (induction xs arbitrary: cur) auto

lemma Split_loop_sep: "sep \<notin> set xs \<Longrightarrow> Split_loop sep (xs @ sep # ys) cur = (cur @ xs) # Split_loop sep ys []"
  by (induction xs arbitrary: cur) auto

lemma Cut_sep:
  assumes "sep \<notin> set xs"
  shows "Cut (xs @ sep # ys) sep = (xs, ys, True)"
proof -
  have tw: "takeWhile (\<lambda>b. b \<noteq> sep) (xs @ sep # ys) = xs"
    using assms by (induction xs) auto
  show ?thesis by (simp add: Cut_def tw)
qed

lemma Cut_nosep: "sep \<notin> set xs \<Longrightarrow> Cut xs sep = (xs, [], False)"
  by (simp add: Cut_def)

lemma codeText_no_space: "CHR '' '' \<notin> set (codeText c s d)"
  using showNat_no_sep by (simp add: codeText_def)

lemma Split_codeText: "Split (codeText c s d) DOT = [showNat c, showNat s, showNat d]"
  using showNat_no_sep[of c] showNat_no_sep[of s] showNat_no_sep[of d]
  by (simp add: Split_def codeText_def Split_loop_sep Split_loop_nosep)

lemma ParseEnhancedCode_prefix:
  assumes "2 \<le> c" "c \<le> 5" "s < 2 ^ 63" "d < 2 ^ 63"
  shows "ParseEnhancedCode (codeText c s d @ '' '' @ rest) = (int c, int s, int d, rest)"
    and "ParseEnhancedCode (codeText c s d) = (int c, int s, int d, [])"
proof -
  have c63: "c < 2 ^ 63" using assms(2) by (simp add: order_le_less_trans[of c 5])
  show "ParseEnhancedCode (codeText c s d @ '' '' @ rest) = (int c, int s, int d, rest)"
    using assms c63
    by (simp add: ParseEnhancedCode_def SplitN2_def Cut_sep[OF codeText_no_space] Split_codeText
        Atoi_showNat Let_def)
  show "ParseEnhancedCode (codeText c s d) = (int c, int s, int d, [])"
    using assms c63
    by (simp add: ParseEnhancedCode_def SplitN2_def Cut_nosep[OF codeText_no_space] Split_codeText
        Atoi_showNat Let_def)
qed

lemma ParseEnhancedCode_nodot:
  "DOT \<notin> set text \<Longrightarrow> ParseEnhancedCode text = (0, 0, 0, text)"
proof -
  assume a: "DOT \<notin> set text"
  have "DOT \<notin> set (hd (SplitN2 text (CHR '' '')))"
    using a by (auto simp: SplitN2_def Cut_def dest: set_takeWhileD)
  then have "Split (hd (SplitN2 text (CHR '' ''))) DOT = [hd (SplitN2 text (CHR '' ''))]"
    by (simp add: Split_def Split_loop_nosep)
  then show ?thesis by (simp add: ParseEnhancedCode_def Let_def)
qed

lemma EnhancedCode_String_codeText:
  assumes "0 \<le> Class e" "0 \<le> Subject e" "0 \<le> Detail e"
  shows "EnhancedCode_String e = codeText (nat (Class e)) (nat (Subject e)) (nat (Detail e))"
  using assms by (simp add: EnhancedCode_String_def codeText_def showInt_def)

lemma ParseEnhancedCode_String:
  assumes "2 \<le> Class e" "Class e \<le> 5" "0 \<le> Subject e" "Subject e < 2 ^ 63"
    "0 \<le> Detail e" "Detail e < 2 ^ 63"
  shows "ParseEnhancedCode (EnhancedCode_String e @ '' '' @ rest) =
           (Class e, Subject e, Detail e, rest)"
    and "ParseEnhancedCode (EnhancedCode_String e) = (Class e, Subject e, Detail e, [])"
proof -
  have s: "EnhancedCode_String e = codeText (nat (Class e)) (nat (Subject e)) (nat (Detail e))"
    using assms by (simp add: EnhancedCode_String_codeText)
  have b: "2 \<le> nat (Class e)" "nat (Class e) \<le> 5" "nat (Subject e) < 2 ^ 63"
    "nat (Detail e) < 2 ^ 63"
    using assms by (simp_all add: nat_less_iff nat_le_iff le_nat_iff)
  show "ParseEnhancedCode (EnhancedCode_String e @ '' '' @ rest) =
           (Class e, Subject e, Detail e, rest)"
    using ParseEnhancedCode_prefix(1)[OF b, of rest] assms by (simp add: s)
  show "ParseEnhancedCode (EnhancedCode_String e) = (Class e, Subject e, Detail e, [])"
    using ParseEnhancedCode_prefix(2)[OF b] assms by (simp add: s)
qed

lemma mkEnhanced_fields: "mkEnhanced (Class e) (Subject e) (Detail e) = (e::EnhancedCode)"
  by (cases e) (simp add: mkEnhanced_def)

text \<open>
  C9 (amended): \<open>replyToError\<close> yields an error with the reply's code.  When the first
  line of the reply starts with an enhanced code \<open>class.subject.detail\<close> (class 2 to 5,
  subject and detail in the range of \<open>int\<close>) followed by a space or by the end of the
  line, the error's enhanced code is that triple; for a reply of exactly one line the
  message is the rest of the line, the prefix being stripped; for a reply of more than
  one line the message is the newline-joined concatenation of all the lines, the first
  one with its prefix.  When the reply has no line or its first line has no dot, the
  enhanced code is the zero triple and the message the newline-joined concatenation of
  the lines.  In general the enhanced code and the message are given by
  \<open>ParseEnhancedCode\<close> on the first line, the rest it returns being the message only for
  a reply of exactly one line.
\<close>

theorem C9_replyToError:
  "(2 \<le> Class e \<and> Class e \<le> 5 \<and> 0 \<le> Subject e \<and> Subject e < 2 ^ 63 \<and>
    0 \<le> Detail e \<and> Detail e < 2 ^ 63 \<longrightarrow>
      replyToError \<lparr>Reply_Code = code, Reply_Lines = [EnhancedCode_String e @ '' '' @ rest]\<rparr> =
        \<lparr>Code = code, Enhanced = e, Message = rest\<rparr> \<and>
      replyToError \<lparr>Reply_Code = code, Reply_Lines = [EnhancedCode_String e]\<rparr> =
        \<lparr>Code = code, Enhanced = e, Message = []\<rparr> \<and>
      replyToError \<lparr>Reply_Code = code,
                    Reply_Lines = (EnhancedCode_String e @ '' '' @ rest) # l # ls\<rparr> =
        \<lparr>Code = code, Enhanced = e,
         Message = Join ((EnhancedCode_String e @ '' '' @ rest) # l # ls) [LF]\<rparr>) \<and>
   (lines = [] \<or> DOT \<notin> set (hd lines) \<longrightarrow>
      replyToError \<lparr>Reply_Code = code, Reply_Lines = lines\<rparr> =
        \<lparr>Code = code, Enhanced = EnhancedCodeZero, Message = Join lines [LF]\<rparr>) \<and>
   Code (replyToError r) = Reply_Code r \<and>
   Enhanced (replyToError r) =
     (if Reply_Lines r \<noteq> [] \<and> fst (ParseEnhancedCode (hd (Reply_Lines r))) \<noteq> 0
      then (case ParseEnhancedCode (hd (Reply_Lines r)) of
              (cl, su, de, rest) \<Rightarrow> mkEnhanced cl su de)
      else EnhancedCodeZero) \<and>
   Message (replyToError r) =
     (if length (Reply_Lines r) = 1 \<and> fst (ParseEnhancedCode (hd (Reply_Lines r))) \<noteq> 0
      then snd (snd (snd (ParseEnhancedCode (hd (Reply_Lines r)))))
      else Join (Reply_Lines r) [LF])"
proof -
  have 1: "replyToError \<lparr>Reply_Code = code, Reply_Lines = [EnhancedCode_String e @ '' '' @ rest]\<rparr> =
        \<lparr>Code = code, Enhanced = e, Message = rest\<rparr> \<and>
      replyToError \<lparr>Reply_Code = code, Reply_Lines = [EnhancedCode_String e]\<rparr> =
        \<lparr>Code = code, Enhanced = e, Message = []\<rparr> \<and>
      replyToError \<lparr>Reply_Code = code,
                    Reply_Lines = (EnhancedCode_String e @ '' '' @ rest) # l # ls\<rparr> =
        \<lparr>Code = code, Enhanced = e,
         Message = Join ((EnhancedCode_String e @ '' '' @ rest) # l # ls) [LF]\<rparr>"
    if h: "2 \<le> Class e \<and> Class e \<le> 5 \<and> 0 \<le> Subject e \<and> Subject e < 2 ^ 63 \<and>
           0 \<le> Detail e \<and> Detail e < 2 ^ 63"
  proof -
    have c: "Class e \<noteq> 0" using h by simp
    have p1: "ParseEnhancedCode (EnhancedCode_String e @ CHR '' '' # rest) =
                (Class e, Subject e, Detail e, rest)"
      using ParseEnhancedCode_String(1)[of e rest] h by simp
    have p2: "ParseEnhancedCode (EnhancedCode_String e) = (Class e, Subject e, Detail e, [])"
      using ParseEnhancedCode_String(2)[of e] h by simp
    show ?thesis
      using c by (simp add: replyToError_def Let_def p1 p2 mkEnhanced_fields del: Join.simps)
  qed
  have 2: "replyToError \<lparr>Reply_Code = code, Reply_Lines = lines\<rparr> =
        \<lparr>Code = code, Enhanced = EnhancedCodeZero, Message = Join lines [LF]\<rparr>"
    if h: "lines = [] \<or> DOT \<notin> set (hd lines)"
  proof (cases lines)
    case Nil
    then show ?thesis by (simp add: replyToError_def)
  next
    case (Cons x xs)
    then have "DOT \<notin> set x" using h by simp
    then show ?thesis using Cons
      by (simp add: replyToError_def Let_def ParseEnhancedCode_nodot del: Join.simps)
  qed
  have 3: "Code (replyToError r) = Reply_Code r \<and>
   Enhanced (replyToError r) =
     (if Reply_Lines r \<noteq> [] \<and> fst (ParseEnhancedCode (hd (Reply_Lines r))) \<noteq> 0
      then (case ParseEnhancedCode (hd (Reply_Lines r)) of
              (cl, su, de, rest) \<Rightarrow> mkEnhanced cl su de)
      else EnhancedCodeZero) \<and>
   Message (replyToError r) =
     (if length (Reply_Lines r) = 1 \<and> fst (ParseEnhancedCode (hd (Reply_Lines r))) \<noteq> 0
      then snd (snd (snd (ParseEnhancedCode (hd (Reply_Lines r)))))
      else Join (Reply_Lines r) [LF])"
    by (cases "Reply_Lines r")
       (auto simp: replyToError_def Let_def split: prod.splits)
  from 1 2 3 show ?thesis by blast
qed

theorem C9_replyToError_witness:
  "replyToError \<lparr>Reply_Code = 550, Reply_Lines = [''5.7.1 Relay access denied'']\<rparr> =
     \<lparr>Code = 550, Enhanced = mkEnhanced 5 7 1, Message = ''Relay access denied''\<rparr> \<and>
   replyToError \<lparr>Reply_Code = 550, Reply_Lines = [''5.7.1'']\<rparr> =
     \<lparr>Code = 550, Enhanced = mkEnhanced 5 7 1, Message = []\<rparr> \<and>
   replyToError \<lparr>Reply_Code = 550,
                 Reply_Lines = [''5.7.1 Relay access denied'', ''try'', ''later'']\<rparr> =
     \<lparr>Code = 550, Enhanced = mkEnhanced 5 7 1,
      Message = ''5.7.1 Relay access denied'' @ [LF] @ ''try'' @ [LF] @ ''later''\<rparr> \<and>
   replyToError \<lparr>Reply_Code = 554, Reply_Lines = [''Transaction failed'']\<rparr> =
     \<lparr>Code = 554, Enhanced = EnhancedCodeZero, Message = ''Transaction failed''\<rparr>"
  using C9_replyToError [where e = "mkEnhanced 5 7 1" and code = 550
      and rest = "''Relay access denied''" and l = "''try''" and ls = "[''later'']"
      and lines = "[''Mailbox unavailable'']" and r = "\<lparr>Reply_Code = 550, Reply_Lines = []\<rparr>"]
    C9_replyToError [where e = "mkEnhanced 5 7 1" and code = 554
      and rest = "[]" and l = "[]" and ls = "[]"
      and lines = "[''Transaction failed'']" and r = "\<lparr>Reply_Code = 550, Reply_Lines = []\<rparr>"]
  by (simp add: mkEnhanced_def EnhancedCode_String_def show_eval)


subsection \<open>SASL PLAIN, client to server\<close>

lemma splitNull_loop_noNul:
  "NUL \<notin> set xs \<Longrightarrow> splitNull_loop xs cur parts = parts @ [cur @ xs]"
  by (induction xs arbitrary: cur) auto

lemma splitNull_loop_field:
  "NUL \<notin> set xs \<Longrightarrow>
   splitNull_loop (xs @ NUL # rest) cur parts = splitNull_loop rest [] (parts @ [cur @ xs])"
  by (induction xs arbitrary: cur) auto

lemma splitNull_plain:
  assumes "NUL \<notin> set identity" "NUL \<notin> set username" "NUL \<notin> set password"
  shows "splitNull (plainAuth_Start identity username password) = [identity, username, password]"
  using assms
  by (simp add: splitNull_def plainAuth_Start_def splitNull_loop_field splitNull_loop_noNul)

text \<open>
  The command \<open>AUTH PLAIN <initial response>\<close>, in state Greeted on a session that is
  not authenticated yet, reaches \<open>authPLAIN\<close> with that initial response.
\<close>

lemma dispatch_AUTH_PLAIN:
  assumes "authHandler srv \<noteq> None" "state s = stateGreeted" "\<not> authenticated s"
    "ToUpper ev ''PLAIN'' = ''PLAIN''"
  shows "dispatch ev srv ''AUTH'' (''PLAIN '' @ initialResp) s =
         (True, authPLAIN ev srv initialResp s)"
  using assms by (auto simp add: dispatch_def handleAUTH_def Cut_def)

text \<open>
  C10: for all strings \<open>identity\<close>, \<open>username\<close>, \<open>password\<close> without NUL bytes, the
  initial response of the client's PLAIN mechanism, split on NUL by the server, is
  exactly \<open>[identity, username, password]\<close>; when that response arrives (base64-decoded
  from a non-empty initial response other than \<open>=\<close>), \<open>authPLAIN\<close> invokes the
  authentication handler once, with mechanism \<open>PLAIN\<close>, the username and the password;
  and when the handler succeeds the session's \<open>authenticated\<close> flag is set and the reply
  is \<open>235 2.0.0 Authentication successful\<close>, nothing else of the session changing.
\<close>

theorem C10_plain_auth:
  assumes "NUL \<notin> set identity" "NUL \<notin> set username" "NUL \<notin> set password"
    and "authHandler srv = Some h"
    and "initialResp \<noteq> []" "initialResp \<noteq> ''=''"
    and "base64Decode ev initialResp = Some (plainAuth_Start identity username password)"
  shows "splitNull (plainAuth_Start identity username password) = [identity, username, password] \<and>
         calls (authPLAIN ev srv initialResp s) =
           calls s @ [Authenticate ''PLAIN'' username password] \<and>
         (h (calls s) ''PLAIN'' username password = None \<longrightarrow>
            authPLAIN ev srv initialResp s =
              s\<lparr>conn_w := conn_w s @ ''235 2.0.0 Authentication successful'' @ CRLF,
                authenticated := True,
                calls := calls s @ [Authenticate ''PLAIN'' username password]\<rparr>)"
  using assms splitNull_plain[OF assms(1-3)]
  by (auto simp: authPLAIN_def finishAuth_def Let_def replyHandlerError_def reply_eval
      split: option.splits handlerError.splits)

theorem C10_plain_auth_witness:
  "splitNull (plainAuth_Start [] ''testuser'' ''testpass'') = [[], ''testuser'', ''testpass''] \<and>
   authPLAIN sampleEnv (defaultServer\<lparr>authHandler := Some acceptAll\<rparr>)
       ''AHRlc3R1c2VyAHRlc3RwYXNz'' ((newSession [])\<lparr>state := stateGreeted\<rparr>) =
     (newSession [])
       \<lparr>conn_w := ''235 2.0.0 Authentication successful'' @ CRLF,
         state := stateGreeted, authenticated := True,
         calls := [Authenticate ''PLAIN'' ''testuser'' ''testpass'']\<rparr>"
  using C10_plain_auth [of "[]" "''testuser''" "''testpass''"
      "defaultServer\<lparr>authHandler := Some acceptAll\<rparr>" acceptAll
      "''AHRlc3R1c2VyAHRlc3RwYXNz''" sampleEnv "(newSession [])\<lparr>state := stateGreeted\<rparr>"]
  by (simp add: defaultServer_def sampleEnv_def plainAuth_Start_def acceptAll_def newSession_def)

subsection \<open>Handler errors with embedded newlines\<close>

text \<open>
  Whatever the message is, \<open>reply\<close> writes it after the code and the enhanced code,
  followed by one CRLF: a LF inside the message goes to the wire as it is.
\<close>

lemma reply_wire:
  "conn_w (reply code enhanced msg s) =
     conn_w s @ showInt code @ '' '' @
     (if \<not> IsZero enhanced then EnhancedCode_String enhanced @ '' '' else []) @ msg @ CRLF"
  by (simp add: reply_def WriteReply_def)

text \<open>
  C5: a mail handler rejects with code 550, enhanced code 5.7.1 and the two-line
  message \<open>Line one\nLine two\<close>.  \<open>handleMAIL\<close> writes one reply line that contains the
  bare LF, \<open>550 5.7.1 Line one\nLine two\r\n\<close>; the multi-line form that
  \<open>SMTPError.WireLines\<close> gives for the same error is
  \<open>550-5.7.1 Line one\r\n550 5.7.1 Line two\r\n\<close>.
\<close>

theorem C5_handler_error_not_split:
  "conn_w (handleMAIL sampleEnv (defaultServer\<lparr>mailHandler := Some rejectingMailHandler\<rparr>)
             ''FROM:<>'' ((newSession [])\<lparr>state := stateGreeted\<rparr>)) =
     ''550 5.7.1 Line one'' @ [LF] @ ''Line two'' @ CRLF \<and>
   WireLines \<lparr>Code = 550, Enhanced = mkEnhanced 5 7 1, Message = ''Line one'' @ [LF] @ ''Line two''\<rparr> =
     ''550-5.7.1 Line one'' @ CRLF @ ''550 5.7.1 Line two'' @ CRLF"
  by (simp add: handleMAIL_def sampleEnv_def defaultServer_def newSession_def toUpperASCII_def trimSpaceASCII_def
      Cut_def rejectingMailHandler_def replyHandlerError_def reply_eval WireLines_def Split_def)

subsection \<open>Commands out of state\<close>

text \<open>
  C3, as stated, fails: in state New neither EXPN nor VRFY is in the allowed set, and
  the replies are 502 and 252.
\<close>

theorem C3_expn_vrfy_in_new_counterexample:
  "''EXPN'' \<notin> set (specAllowedVerbs stateNew) \<and>
   conn_w (snd (dispatch sampleEnv defaultServer ''EXPN'' [] (newSession []))) =
     ''502 5.5.1 EXPN not implemented'' @ CRLF \<and>
   ''VRFY'' \<notin> set (specAllowedVerbs stateNew) \<and>
   conn_w (snd (dispatch sampleEnv defaultServer ''VRFY'' ''postmaster'' (newSession []))) =
     ''252 2.0.0 Cannot VRFY user, but will accept message'' @ CRLF"
  by (simp add: dispatch_def handleVRFY_def defaultServer_def newSession_def reply_eval)

lemma dispatch_MAIL_503:
  assumes "state s \<noteq> stateData" "''MAIL'' \<notin> set (specAllowedVerbs (state s))"
  shows "\<exists>msg. dispatch ev srv ''MAIL'' args s =
           (True, reply ReplyBadSequence EnhancedCodeInvalidCommand msg s)"
  using assms by (cases "state s") (auto simp: dispatch_def handleMAIL_def)

lemma dispatch_RCPT_503:
  assumes "state s \<noteq> stateData" "''RCPT'' \<notin> set (specAllowedVerbs (state s))"
  shows "\<exists>msg. dispatch ev srv ''RCPT'' args s =
           (True, reply ReplyBadSequence EnhancedCodeInvalidCommand msg s)"
  using assms by (cases "state s") (auto simp: dispatch_def handleRCPT_def)

lemma dispatch_DATA_503:
  assumes "state s \<noteq> stateData" "''DATA'' \<notin> set (specAllowedVerbs (state s))"
  shows "\<exists>msg. dispatch ev srv ''DATA'' args s =
           (True, reply ReplyBadSequence EnhancedCodeInvalidCommand msg s)"
  using assms by (cases "state s") (auto simp: dispatch_def handleDATA_def)

lemma dispatch_BDAT_503:
  assumes "state s \<noteq> stateData" "''BDAT'' \<notin> set (specAllowedVerbs (state s))"
  shows "\<exists>msg. dispatch ev srv ''BDAT'' args s =
           (True, reply ReplyBadSequence EnhancedCodeInvalidCommand msg s)"
  using assms by (cases "state s") (auto simp: dispatch_def handleBDAT_def)

lemma dispatch_AUTH_503:
  assumes "authHandler srv \<noteq> None" "state s \<noteq> stateData"
    "''AUTH'' \<notin> set (specAllowedVerbs (state s))"
  shows "\<exists>msg. dispatch ev srv ''AUTH'' args s =
           (True, reply ReplyBadSequence EnhancedCodeInvalidCommand msg s)"
  using assms by (cases "state s") (auto simp: dispatch_def handleAUTH_def)

text \<open>
  C3 (amended): in every session state (New, Greeted, Mail, Rcpt) each of the verbs
  MAIL, RCPT, DATA and BDAT issued outside that state's allowed set is answered with
  503 and enhanced code 5.5.1, the session being otherwise unchanged, and so is AUTH
  when an authentication handler is configured.  The rule does not cover the following
  cases: EXPN is answered 502 in every state; VRFY is answered in every state by the
  result of its handler (250 with the handler's text, or the handler's error) and,
  without a handler, by 252; AUTH without an authentication handler and STARTTLS
  without a TLS configuration are answered 502; STARTTLS on a session already on TLS is
  answered 503.
\<close>

theorem C3_out_of_state_replies:
  "(verb \<in> {''MAIL'', ''RCPT'', ''DATA'', ''BDAT''} \<and> state s \<noteq> stateData \<and>
      verb \<notin> set (specAllowedVerbs (state s)) \<longrightarrow>
      (\<exists>msg. dispatch ev srv verb args s =
         (True, reply ReplyBadSequence EnhancedCodeInvalidCommand msg s))) \<and>
   (authHandler srv \<noteq> None \<and> state s \<noteq> stateData \<and>
      ''AUTH'' \<notin> set (specAllowedVerbs (state s)) \<longrightarrow>
      (\<exists>msg. dispatch ev srv ''AUTH'' args s =
         (True, reply ReplyBadSequence EnhancedCodeInvalidCommand msg s))) \<and>
   (authHandler srv = None \<longrightarrow>
      dispatch ev srv ''AUTH'' args s =
        (True, reply ReplyCommandNotImpl EnhancedCodeInvalidCommand ''AUTH not available'' s)) \<and>
   dispatch ev srv ''EXPN'' args s =
     (True, reply ReplyCommandNotImpl EnhancedCodeInvalidCommand ''EXPN not implemented'' s) \<and>
   (vrfyHandler srv = None \<longrightarrow>
      dispatch ev srv ''VRFY'' args s =
        (True, reply ReplyCannotVRFY EnhancedCodeOK
                 ''Cannot VRFY user, but will accept message'' s)) \<and>
   (vrfyHandler srv = Some h \<longrightarrow>
      dispatch ev srv ''VRFY'' args s =
        (True,
         case h (calls s) args of
           (result, None) \<Rightarrow>
             reply ReplyOK EnhancedCodeOK result (s\<lparr>calls := calls s @ [OnVrfy args]\<rparr>)
         | (result, Some e) \<Rightarrow>
             replyHandlerError e ReplyLocalError EnhancedCodeOtherNetwork ''Internal error''
               (s\<lparr>calls := calls s @ [OnVrfy args]\<rparr>))) \<and>
   (\<not> tlsConfig srv \<longrightarrow>
      dispatch ev srv ''STARTTLS'' args s =
        (True, reply ReplyCommandNotImpl EnhancedCodeInvalidCommand ''STARTTLS not available'' s)) \<and>
   (tlsConfig srv \<and> tls s \<longrightarrow>
      dispatch ev srv ''STARTTLS'' args s =
        (True, reply ReplyBadSequence EnhancedCodeInvalidCommand ''Already running TLS'' s))"
proof -
  have 1: "verb \<in> {''MAIL'', ''RCPT'', ''DATA'', ''BDAT''} \<and> state s \<noteq> stateData \<and>
      verb \<notin> set (specAllowedVerbs (state s)) \<longrightarrow>
      (\<exists>msg. dispatch ev srv verb args s =
         (True, reply ReplyBadSequence EnhancedCodeInvalidCommand msg s))"
    using dispatch_MAIL_503 dispatch_RCPT_503 dispatch_DATA_503 dispatch_BDAT_503 by blast
  have 2: "authHandler srv \<noteq> None \<and> state s \<noteq> stateData \<and>
      ''AUTH'' \<notin> set (specAllowedVerbs (state s)) \<longrightarrow>
      (\<exists>msg. dispatch ev srv ''AUTH'' args s =
         (True, reply ReplyBadSequence EnhancedCodeInvalidCommand msg s))"
    using dispatch_AUTH_503 by blast
  have 3: "authHandler srv = None \<longrightarrow>
      dispatch ev srv ''AUTH'' args s =
        (True, reply ReplyCommandNotImpl EnhancedCodeInvalidCommand ''AUTH not available'' s)"
    by (simp add: dispatch_def handleAUTH_def)
  have 4: "dispatch ev srv ''EXPN'' args s =
     (True, reply ReplyCommandNotImpl EnhancedCodeInvalidCommand ''EXPN not implemented'' s)"
    by (simp add: dispatch_def)
  have 5: "vrfyHandler srv = None \<longrightarrow>
      dispatch ev srv ''VRFY'' args s =
        (True, reply ReplyCannotVRFY EnhancedCodeOK
                 ''Cannot VRFY user, but will accept message'' s)"
    by (simp add: dispatch_def handleVRFY_def)
  have 6: "vrfyHandler srv = Some h \<longrightarrow>
      dispatch ev srv ''VRFY'' args s =
        (True,
         case h (calls s) args of
           (result, None) \<Rightarrow>
             reply ReplyOK EnhancedCodeOK result (s\<lparr>calls := calls s @ [OnVrfy args]\<rparr>)
         | (result, Some e) \<Rightarrow>
             replyHandlerError e ReplyLocalError EnhancedCodeOtherNetwork ''Internal error''
               (s\<lparr>calls := calls s @ [OnVrfy args]\<rparr>))"
    by (auto simp add: dispatch_def handleVRFY_def Let_def split: prod.splits option.splits)
  have 7: "\<not> tlsConfig srv \<longrightarrow>
      dispatch ev srv ''STARTTLS'' args s =
        (True, reply ReplyCommandNotImpl EnhancedCodeInvalidCommand ''STARTTLS not available'' s)"
    by (simp add: dispatch_def handleSTARTTLS_def)
  have 8: "tlsConfig srv \<and> tls s \<longrightarrow>
      dispatch ev srv ''STARTTLS'' args s =
        (True, reply ReplyBadSequence EnhancedCodeInvalidCommand ''Already running TLS'' s)"
    by (simp add: dispatch_def handleSTARTTLS_def)
  from 1 2 3 4 5 6 7 8 show ?thesis by blast
qed

theorem C3_out_of_state_replies_witness:
  "(\<exists>msg. dispatch sampleEnv defaultServer ''MAIL'' ''FROM:<>'' (newSession []) =
      (True, reply ReplyBadSequence EnhancedCodeInvalidCommand msg (newSession []))) \<and>
   (\<exists>msg. dispatch sampleEnv (defaultServer\<lparr>authHandler := Some acceptAll\<rparr>) ''AUTH'' ''PLAIN''
             ((newSession [])\<lparr>state := stateMail\<rparr>) =
      (True, reply ReplyBadSequence EnhancedCodeInvalidCommand msg
               ((newSession [])\<lparr>state := stateMail\<rparr>))) \<and>
   (\<exists>msg. dispatch sampleEnv defaultServer ''DATA'' []
             ((newSession [])\<lparr>state := stateGreeted\<rparr>) =
      (True, reply ReplyBadSequence EnhancedCodeInvalidCommand msg
               ((newSession [])\<lparr>state := stateGreeted\<rparr>))) \<and>
   dispatch sampleEnv defaultServer ''AUTH'' ''PLAIN'' (newSession []) =
      (True, reply ReplyCommandNotImpl EnhancedCodeInvalidCommand ''AUTH not available''
               (newSession [])) \<and>
   dispatch sampleEnv defaultServer ''VRFY'' ''x'' (newSession []) =
      (True, reply ReplyCannotVRFY EnhancedCodeOK
               ''Cannot VRFY user, but will accept message'' (newSession [])) \<and>
   dispatch sampleEnv (defaultServer\<lparr>vrfyHandler := Some vrfyEcho\<rparr>) ''VRFY'' ''postmaster''
       ((newSession [])\<lparr>state := stateMail\<rparr>) =
      (True, reply ReplyOK EnhancedCodeOK ''<postmaster@localhost>''
               ((newSession [])\<lparr>state := stateMail, calls := [OnVrfy ''postmaster'']\<rparr>)) \<and>
   dispatch sampleEnv defaultServer ''STARTTLS'' [] (newSession []) =
      (True, reply ReplyCommandNotImpl EnhancedCodeInvalidCommand ''STARTTLS not available''
               (newSession [])) \<and>
   dispatch sampleEnv (defaultServer\<lparr>tlsConfig := True\<rparr>) ''STARTTLS'' []
       ((newSession [])\<lparr>tls := True\<rparr>) =
      (True, reply ReplyBadSequence EnhancedCodeInvalidCommand ''Already running TLS''
               ((newSession [])\<lparr>tls := True\<rparr>))"
  using C3_out_of_state_replies [where verb = "''MAIL''" and s = "newSession []"
      and ev = sampleEnv
      and srv = defaultServer and args = "''FROM:<>''" and h = vrfyEcho]
    C3_out_of_state_replies [where verb = "''DATA''"
      and s = "(newSession [])\<lparr>state := stateGreeted\<rparr>" and ev = sampleEnv
      and srv = defaultServer and args = "[]" and h = vrfyEcho]
    C3_out_of_state_replies [where verb = "''MAIL''"
      and s = "(newSession [])\<lparr>state := stateMail\<rparr>" and ev = sampleEnv
      and srv = "defaultServer\<lparr>authHandler := Some acceptAll\<rparr>" and args = "''PLAIN''"
      and h = vrfyEcho]
    C3_out_of_state_replies [where verb = "''MAIL''" and s = "newSession []"
      and ev = sampleEnv
      and srv = defaultServer and args = "''PLAIN''" and h = vrfyEcho]
    C3_out_of_state_replies [where verb = "''MAIL''" and s = "newSession []"
      and ev = sampleEnv
      and srv = defaultServer and args = "''x''" and h = vrfyEcho]
    C3_out_of_state_replies [where verb = "''MAIL''"
      and s = "(newSession [])\<lparr>state := stateMail\<rparr>" and ev = sampleEnv
      and srv = "defaultServer\<lparr>vrfyHandler := Some vrfyEcho\<rparr>" and args = "''postmaster''"
      and h = vrfyEcho]
    C3_out_of_state_replies [where verb = "''MAIL''" and s = "newSession []"
      and ev = sampleEnv
      and srv = defaultServer and args = "[]" and h = vrfyEcho]
    C3_out_of_state_replies [where verb = "''MAIL''"
      and s = "(newSession [])\<lparr>tls := True\<rparr>" and ev = sampleEnv
      and srv = "defaultServer\<lparr>tlsConfig := True\<rparr>" and args = "[]" and h = vrfyEcho]
  by (simp add: newSession_def defaultServer_def vrfyEcho_def)


subsection \<open>BDAT and the allocation of the chunk\<close>

text \<open>
  \<open>handleBDAT\<close> allocates the chunk before it reads: a size that the runtime cannot
  allocate stops the goroutine, with no reply.
\<close>

lemma dispatch_BDAT_alloc_failure:
  assumes "state s = stateRcpt" "Fields ev args = n # ns" "Sscanf_d ev n = Some sz" "0 \<le> sz"
    "\<not> makeBytes ev sz"
  shows "dispatch ev srv ''BDAT'' args s = (False, s\<lparr>fault := Some (ErrAlloc sz)\<rparr>)"
  using assms by (simp add: dispatch_def handleBDAT_def)

subsection \<open>The command loop on framed lines\<close>

lemma Conn_ReadLine_command:
  assumes "LF \<notin> set l" "int (length l) + 2 \<le> MaxCommandLineLen"
  shows "Conn_ReadLine MaxCommandLineLen (l @ CRLF @ rest) = (Inr l, rest)"
proof -
  have s: "length (l @ [CR]) < readerSize"
    using assms(2) by (simp add: MaxCommandLineLen_def readerSize_def)
  have n: "LF \<notin> set (l @ [CR])" using assms(1) by simp
  have "bufio_ReadLine ((l @ [CR]) @ LF # rest) = ((stripCR (l @ [CR]), False, None), rest)"
    using n s by (rule bufio_ReadLine_short)
  then have "bufio_ReadLine (l @ CRLF @ rest) = ((l, False, None), rest)"
    by (simp add: stripCR_def)
  then show ?thesis
    using assms(2) unfolding Conn_ReadLine_def
    by (subst ReadLine_loop.simps) simp
qed

lemma dispatch_unknown:
  "verb \<notin> set knownVerbs \<Longrightarrow>
   dispatch ev srv verb args s = invalidCommand srv ''Command not recognized'' s"
  by (simp add: dispatch_def knownVerbs_def)

lemma cmdStep_bad:
  assumes "wellFramed l" "badCommand ev l"
  shows "cmdStep ev srv (s\<lparr>conn_r := l @ CRLF @ rest\<rparr>) =
         invalidCommand srv (msg500 l) (s\<lparr>conn_r := rest\<rparr>)"
proof -
  have r: "Conn_ReadLine MaxCommandLineLen (l @ CRLF @ rest) = (Inr l, rest)"
    using assms(1) by (simp add: wellFramed_def Conn_ReadLine_command del: append_Cons)
  show ?thesis
  proof (cases "NUL \<in> set l")
    case True
    then show ?thesis by (simp add: cmdStep_def r msg500_def del: append_Cons)
  next
    case False
    with assms(2) have "fst (parseCommand ev l) \<notin> set knownVerbs"
      by (simp add: badCommand_def)
    with False show ?thesis
      by (cases "parseCommand ev l")
         (simp add: cmdStep_def r dispatch_unknown msg500_def del: append_Cons)
  qed
qed

lemma invalidCommand_below:
  assumes "invalidCmds s + 1 < maxInvalidCmds srv"
  shows "invalidCommand srv (msg500 l) s =
         (True, s\<lparr>conn_w := conn_w s @ reply500 l, invalidCmds := invalidCmds s + 1\<rparr>)"
  using assms by (simp add: invalidCommand_def Let_def reply_eval reply500_def)

lemma invalidCommand_reached:
  assumes "0 < maxInvalidCmds srv" "maxInvalidCmds srv \<le> invalidCmds s + 1"
  shows "invalidCommand srv (msg500 l) s =
         (False, s\<lparr>conn_w := conn_w s @ reply500 l @ reply421,
                   invalidCmds := invalidCmds s + 1\<rparr>)"
  using assms by (simp add: invalidCommand_def Let_def reply_eval reply500_def reply421_def)

lemma frame_Cons: "frame (l # ls) @ rest = l @ CRLF @ (frame ls @ rest)"
  by (simp add: frame_def)

lemma frame_snoc: "frame (ls @ [l]) @ rest = frame ls @ (l @ CRLF @ rest)"
  by (simp add: frame_def)

lemma cmdLoop_bad_prefix:
  assumes "\<forall>l\<in>set ls. wellFramed l \<and> badCommand ev l"
    "invalidCmds s + int (length ls) < maxInvalidCmds srv"
  shows "cmdLoop (length ls + m) ev srv (s\<lparr>conn_r := frame ls @ rest\<rparr>) =
         cmdLoop m ev srv
           (s\<lparr>conn_r := rest, conn_w := conn_w s @ concat (map reply500 ls),
              invalidCmds := invalidCmds s + int (length ls)\<rparr>)"
  using assms
proof (induction ls arbitrary: s)
  case Nil
  then show ?case by (cases s) (simp add: frame_def)
next
  case (Cons l ls)
  let ?s1 = "s\<lparr>conn_w := conn_w s @ reply500 l, invalidCmds := invalidCmds s + 1\<rparr>"
  have wf: "wellFramed l" "badCommand ev l" using Cons.prems(1) by simp_all
  have below: "invalidCmds (s\<lparr>conn_r := frame ls @ rest\<rparr>) + 1 < maxInvalidCmds srv"
    using Cons.prems(2) by simp
  have step: "cmdStep ev srv (s\<lparr>conn_r := frame (l # ls) @ rest\<rparr>) =
              (True, ?s1\<lparr>conn_r := frame ls @ rest\<rparr>)"
    unfolding frame_Cons cmdStep_bad[OF wf] invalidCommand_below[OF below]
    by (cases s) simp
  have pre: "\<forall>l\<in>set ls. wellFramed l \<and> badCommand ev l" using Cons.prems(1) by simp
  have bel: "invalidCmds ?s1 + int (length ls) < maxInvalidCmds srv"
    using Cons.prems(2) by simp
  have "cmdLoop (length (l # ls) + m) ev srv (s\<lparr>conn_r := frame (l # ls) @ rest\<rparr>) =
        cmdLoop (length ls + m) ev srv (?s1\<lparr>conn_r := frame ls @ rest\<rparr>)"
    by (simp add: step)
  also have "\<dots> = cmdLoop m ev srv
              (?s1\<lparr>conn_r := rest, conn_w := conn_w ?s1 @ concat (map reply500 ls),
                  invalidCmds := invalidCmds ?s1 + int (length ls)\<rparr>)"
    by (rule Cons.IH[OF pre bel])
  also have "\<dots> = cmdLoop m ev srv
           (s\<lparr>conn_r := rest, conn_w := conn_w s @ concat (map reply500 (l # ls)),
              invalidCmds := invalidCmds s + int (length (l # ls))\<rparr>)"
    by (cases s) (simp add: add.assoc)
  finally show ?case .
qed

lemma cmdLoop_bad_cap:
  assumes "\<forall>l\<in>set ls. wellFramed l \<and> badCommand ev l"
    "0 < maxInvalidCmds srv" "invalidCmds s + int (length ls) = maxInvalidCmds srv" "ls \<noteq> []"
  shows "cmdLoop (length ls + m) ev srv (s\<lparr>conn_r := frame ls @ rest\<rparr>) =
         Some (s\<lparr>conn_r := rest, conn_w := conn_w s @ concat (map reply500 ls) @ reply421,
                 invalidCmds := maxInvalidCmds srv\<rparr>)"
proof -
  obtain ls' l where ls: "ls = ls' @ [l]"
    using assms(4) by (metis rev_exhaust)
  let ?s0 = "s\<lparr>conn_w := conn_w s @ concat (map reply500 ls'),
               invalidCmds := invalidCmds s + int (length ls')\<rparr>"
  have wf: "wellFramed l" "badCommand ev l" using assms(1) ls by simp_all
  have pre: "\<forall>l\<in>set ls'. wellFramed l \<and> badCommand ev l" using assms(1) ls by simp
  have below: "invalidCmds s + int (length ls') < maxInvalidCmds srv"
    using assms(3) ls by simp
  have e1: "length ls + m = length ls' + Suc m" by (simp add: ls)
  have fr: "frame ls @ rest = frame ls' @ (l @ CRLF @ rest)"
    unfolding ls by (rule frame_snoc)
  have "cmdLoop (length ls + m) ev srv (s\<lparr>conn_r := frame ls @ rest\<rparr>) =
        cmdLoop (length ls' + Suc m) ev srv (s\<lparr>conn_r := frame ls' @ (l @ CRLF @ rest)\<rparr>)"
    by (simp only: e1 fr)
  also have "\<dots> = cmdLoop (Suc m) ev srv
      (s\<lparr>conn_r := l @ CRLF @ rest, conn_w := conn_w s @ concat (map reply500 ls'),
         invalidCmds := invalidCmds s + int (length ls')\<rparr>)"
    by (rule cmdLoop_bad_prefix[OF pre below])
  also have "\<dots> = cmdLoop (Suc m) ev srv (?s0\<lparr>conn_r := l @ CRLF @ rest\<rparr>)"
    by (cases s) simp
  also have "\<dots> = Some (s\<lparr>conn_r := rest, conn_w := conn_w s @ concat (map reply500 ls) @ reply421,
                 invalidCmds := maxInvalidCmds srv\<rparr>)"
  proof -
    have reached: "maxInvalidCmds srv \<le> invalidCmds (?s0\<lparr>conn_r := rest\<rparr>) + 1"
      using assms(3) ls by simp
    have st: "cmdStep ev srv (?s0\<lparr>conn_r := l @ CRLF @ rest\<rparr>) =
            (False, (?s0\<lparr>conn_r := rest\<rparr>)
                      \<lparr>conn_w := conn_w (?s0\<lparr>conn_r := rest\<rparr>) @ reply500 l @ reply421,
                        invalidCmds := invalidCmds (?s0\<lparr>conn_r := rest\<rparr>) + 1\<rparr>)"
      unfolding cmdStep_bad[OF wf] by (rule invalidCommand_reached[OF assms(2) reached])
    show ?thesis
      unfolding cmdLoop.simps st using assms(3) ls by (cases s) simp
  qed
  finally show ?thesis .
qed

text \<open>
  C8: with \<open>maxInvalidCmds = K > 0\<close>, a session with no invalid command counted yet
  whose next \<open>K\<close> commands \<open>ls\<close> are each an unrecognized verb or a line with a NUL byte
  answers each of them with a 500 reply, follows the \<open>K\<close>th with the 421 closing reply,
  and returns (disconnects) there, leaving the input after the \<open>K\<close>th command unread,
  for any bound of at least \<open>K\<close> turns.  After only \<open>n < K\<close> of them the loop has written
  the \<open>n\<close> 500 replies and nothing else, and goes on with whatever input follows.
\<close>

theorem C8_invalid_command_cap:
  assumes "0 < maxInvalidCmds srv" "int (length ls) = maxInvalidCmds srv"
    "\<forall>l\<in>set ls. wellFramed l \<and> badCommand ev l" "invalidCmds s = 0"
  shows "cmdLoop (length ls + m) ev srv (s\<lparr>conn_r := frame ls @ rest\<rparr>) =
           Some (s\<lparr>conn_r := rest, conn_w := conn_w s @ concat (map reply500 ls) @ reply421,
                   invalidCmds := maxInvalidCmds srv\<rparr>) \<and>
         (n < length ls \<longrightarrow>
            cmdLoop (n + m) ev srv (s\<lparr>conn_r := frame (take n ls) @ rest'\<rparr>) =
            cmdLoop m ev srv
              (s\<lparr>conn_r := rest', conn_w := conn_w s @ concat (map reply500 (take n ls)),
                 invalidCmds := int n\<rparr>))"
proof
  have "ls \<noteq> []" using assms(1,2) by auto
  then show "cmdLoop (length ls + m) ev srv (s\<lparr>conn_r := frame ls @ rest\<rparr>) =
           Some (s\<lparr>conn_r := rest, conn_w := conn_w s @ concat (map reply500 ls) @ reply421,
                   invalidCmds := maxInvalidCmds srv\<rparr>)"
    using assms by (intro cmdLoop_bad_cap) auto
next
  show "n < length ls \<longrightarrow>
            cmdLoop (n + m) ev srv (s\<lparr>conn_r := frame (take n ls) @ rest'\<rparr>) =
            cmdLoop m ev srv
              (s\<lparr>conn_r := rest', conn_w := conn_w s @ concat (map reply500 (take n ls)),
                 invalidCmds := int n\<rparr>)"
  proof
    assume n: "n < length ls"
    have 1: "\<forall>l\<in>set (take n ls). wellFramed l \<and> badCommand ev l"
      using assms(3) by (auto dest: in_set_takeD)
    have 2: "invalidCmds s + int (length (take n ls)) < maxInvalidCmds srv"
      using assms(2,4) n by simp
    show "cmdLoop (n + m) ev srv (s\<lparr>conn_r := frame (take n ls) @ rest'\<rparr>) =
            cmdLoop m ev srv
              (s\<lparr>conn_r := rest', conn_w := conn_w s @ concat (map reply500 (take n ls)),
                 invalidCmds := int n\<rparr>)"
      using cmdLoop_bad_prefix[OF 1 2, of m rest'] n assms(4) by simp
  qed
qed

theorem C8_invalid_command_cap_witness:
  "cmdLoop 2 sampleEnv (defaultServer\<lparr>maxInvalidCmds := 2\<rparr>)
     ((newSession [])\<lparr>conn_r := frame [''FOO bar'', [CHR ''E'', CHR ''H'', NUL]] @ ''NOOP''\<rparr>) =
   Some ((newSession [])
           \<lparr>conn_r := ''NOOP'',
             conn_w := ''500 5.5.1 Command not recognized'' @ CRLF @
                       ''500 5.5.1 NUL not allowed in commands'' @ CRLF @
                       ''421 4.4.0 Too many errors, closing connection'' @ CRLF,
             invalidCmds := 2\<rparr>) \<and>
   cmdLoop 1 sampleEnv (defaultServer\<lparr>maxInvalidCmds := 2\<rparr>)
     ((newSession [])\<lparr>conn_r := frame [''FOO bar''] @ ''QUIT''\<rparr>) =
   cmdLoop 0 sampleEnv (defaultServer\<lparr>maxInvalidCmds := 2\<rparr>)
     ((newSession [])
        \<lparr>conn_r := ''QUIT'', conn_w := ''500 5.5.1 Command not recognized'' @ CRLF,
          invalidCmds := 1\<rparr>)"
proof -
  let ?srv = "defaultServer\<lparr>maxInvalidCmds := 2\<rparr>"
  let ?ls = "[''FOO bar'', [CHR ''E'', CHR ''H'', NUL]]"
  have 1: "0 < maxInvalidCmds ?srv" by (simp add: defaultServer_def)
  have 2: "int (length ?ls) = maxInvalidCmds ?srv" by (simp add: defaultServer_def)
  have 3: "\<forall>l\<in>set ?ls. wellFramed l \<and> badCommand sampleEnv l"
    by (simp add: wellFramed_def badCommand_def knownVerbs_def MaxCommandLineLen_def
        parseCommand_def Cut_def sampleEnv_def toUpperASCII_def)
  have 4: "invalidCmds (newSession []) = 0" by (simp add: newSession_def)
  note t = C8_invalid_command_cap [OF 1 2 3 4, of 0 "''NOOP''" 1 "''QUIT''"]
  then show ?thesis
    by (simp add: numeral_2_eq_2 defaultServer_def newSession_def reply500_def msg500_def
        reply421_def del: cmdLoop.simps)
qed

subsection \<open>Sequence errors and the invalid-command counter\<close>

lemma cmdStep_line:
  assumes "wellFramed l" "NUL \<notin> set l"
  shows "cmdStep ev srv (s\<lparr>conn_r := l @ CRLF @ rest\<rparr>) =
         dispatch ev srv (fst (parseCommand ev l)) (snd (parseCommand ev l)) (s\<lparr>conn_r := rest\<rparr>)"
proof -
  have r: "Conn_ReadLine MaxCommandLineLen (l @ CRLF @ rest) = (Inr l, rest)"
    using assms(1) by (simp add: wellFramed_def Conn_ReadLine_command del: append_Cons)
  show ?thesis
    using assms(2) by (cases "parseCommand ev l") (simp add: cmdStep_def r del: append_Cons)
qed

lemma cmdStep_eof:
  "cmdStep ev srv (s\<lparr>conn_r := []\<rparr>) = (False, s\<lparr>conn_r := []\<rparr>)"
proof -
  have "Conn_ReadLine MaxCommandLineLen [] = (Inl EOF, [])"
    unfolding Conn_ReadLine_def
    by (subst ReadLine_loop.simps) (simp add: bufio_ReadLine_def readerSize_def)
  then show ?thesis by (simp add: cmdStep_def)
qed

lemma cmdStep_MAIL_New:
  assumes "wellFramed l" "NUL \<notin> set l" "fst (parseCommand ev l) = ''MAIL''" "state s = stateNew"
  shows "cmdStep ev srv (s\<lparr>conn_r := l @ CRLF @ rest\<rparr>) =
         (True, s\<lparr>conn_w := conn_w s @ reply503, conn_r := rest\<rparr>)"
  unfolding cmdStep_line[OF assms(1,2)] assms(3)
  using assms(4) by (cases s) (simp add: dispatch_def handleMAIL_def reply_eval reply503_def)

lemma cmdLoop_MAIL_New:
  assumes "\<forall>l\<in>set ls. wellFramed l \<and> NUL \<notin> set l \<and> fst (parseCommand ev l) = ''MAIL''"
    "state s = stateNew"
  shows "cmdLoop (length ls + Suc m) ev srv (s\<lparr>conn_r := frame ls\<rparr>) =
         Some (s\<lparr>conn_w := conn_w s @ concat (replicate (length ls) reply503), conn_r := []\<rparr>)"
  using assms
proof (induction ls arbitrary: s)
  case Nil
  then show ?case by (simp add: frame_def cmdStep_eof)
next
  case (Cons l ls)
  let ?s1 = "s\<lparr>conn_w := conn_w s @ reply503\<rparr>"
  have l: "wellFramed l" "NUL \<notin> set l" "fst (parseCommand ev l) = ''MAIL''"
    using Cons.prems(1) by simp_all
  have step: "cmdStep ev srv (s\<lparr>conn_r := frame (l # ls)\<rparr>) = (True, ?s1\<lparr>conn_r := frame ls\<rparr>)"
    using cmdStep_MAIL_New[OF l Cons.prems(2), where srv = srv and rest = "frame ls"]
    by (simp add: frame_def)
  have pre: "\<forall>l\<in>set ls. wellFramed l \<and> NUL \<notin> set l \<and> fst (parseCommand ev l) = ''MAIL''"
    using Cons.prems(1) by simp
  have st: "state ?s1 = stateNew" using Cons.prems(2) by simp
  have "cmdLoop (length (l # ls) + Suc m) ev srv (s\<lparr>conn_r := frame (l # ls)\<rparr>) =
        cmdLoop (length ls + Suc m) ev srv (?s1\<lparr>conn_r := frame ls\<rparr>)"
    by (simp add: step)
  also have "\<dots> =
      Some (?s1\<lparr>conn_w := conn_w ?s1 @ concat (replicate (length ls) reply503), conn_r := []\<rparr>)"
    by (rule Cons.IH[OF pre st])
  also have "\<dots> =
      Some (s\<lparr>conn_w := conn_w s @ concat (replicate (length (l # ls)) reply503), conn_r := []\<rparr>)"
    by (cases s) simp
  finally show ?case .
qed

text \<open>
  C4: with \<open>maxInvalidCmds = 2\<close>, a client that sends \<open>MAIL FROM:<>\<close> three times before
  any EHLO gets three replies \<open>503 5.5.1 Send EHLO/HELO first\<close> and no 421; the
  invalid-command counter is still 0 when the connection ends with the input.
\<close>

theorem C4_sequence_errors_not_counted:
  "handleConn 4 sampleEnv (defaultServer\<lparr>maxInvalidCmds := 2\<rparr>)
     (frame [''MAIL FROM:<>'', ''MAIL FROM:<>'', ''MAIL FROM:<>'']) =
   Some ((newSession [])
           \<lparr>conn_w := ''220 localhost ESMTP ready'' @ CRLF @ reply503 @ reply503 @ reply503,
             invalidCmds := 0\<rparr>)"
proof -
  let ?ls = "[''MAIL FROM:<>'', ''MAIL FROM:<>'', ''MAIL FROM:<>'']"
  let ?srv = "defaultServer\<lparr>maxInvalidCmds := 2\<rparr>"
  let ?s = "replyMulti ReplyServiceReady [hostname ?srv @ '' ESMTP ready''] (newSession [])"
  have 1: "\<forall>l\<in>set ?ls. wellFramed l \<and> NUL \<notin> set l \<and> fst (parseCommand sampleEnv l) = ''MAIL''"
    by (simp add: wellFramed_def MaxCommandLineLen_def parseCommand_def Cut_def sampleEnv_def
        toUpperASCII_def)
  have 2: "state ?s = stateNew" by (simp add: replyMulti_def newSession_def)
  have 3: "replyMulti ReplyServiceReady [hostname ?srv @ '' ESMTP ready''] (newSession (frame ?ls)) =
           ?s\<lparr>conn_r := frame ?ls\<rparr>"
    by (simp add: replyMulti_def newSession_def)
  have n: "(4::nat) = length ?ls + Suc 0" by simp
  have "handleConn 4 sampleEnv ?srv (frame ?ls) =
        cmdLoop (length ?ls + Suc 0) sampleEnv ?srv (?s\<lparr>conn_r := frame ?ls\<rparr>)"
    by (simp only: handleConn_def 3 n)
  also have "\<dots> = Some (?s\<lparr>conn_w := conn_w ?s @ concat (replicate (length ?ls) reply503),
                           conn_r := []\<rparr>)"
    using 1 2 by (rule cmdLoop_MAIL_New)
  also have "\<dots> = Some ((newSession [])
           \<lparr>conn_w := ''220 localhost ESMTP ready'' @ CRLF @ reply503 @ reply503 @ reply503,
             invalidCmds := 0\<rparr>)"
    by (simp add: replyMulti_def newSession_def defaultServer_def WriteReply_def reply_codes
        show_eval)
  finally show ?thesis .
qed

subsection \<open>STARTTLS and the session\<close>

text \<open>
  What a successful upgrade does to the session: the transaction, the state, the
  client hostname and the ESMTP flag are reset and the TLS flag is set; the
  \<open>authenticated\<close> flag and the invalid-command counter are left as they were.
\<close>

lemma handleSTARTTLS_upgrade:
  assumes "tlsConfig srv" "\<not> tls s" "tlsHandshake ev (conn_r s) = (True, r')"
  shows "fst (handleSTARTTLS ev srv s) \<and>
         state (snd (handleSTARTTLS ev srv s)) = stateNew \<and>
         clientHostname (snd (handleSTARTTLS ev srv s)) = [] \<and>
         \<not> esmtp (snd (handleSTARTTLS ev srv s)) \<and>
         tls (snd (handleSTARTTLS ev srv s)) \<and>
         reversePath (snd (handleSTARTTLS ev srv s)) = zeroReversePath \<and>
         forwardPaths (snd (handleSTARTTLS ev srv s)) = [] \<and>
         bdatBuffer (snd (handleSTARTTLS ev srv s)) = [] \<and>
         authenticated (snd (handleSTARTTLS ev srv s)) = authenticated s \<and>
         invalidCmds (snd (handleSTARTTLS ev srv s)) = invalidCmds s \<and>
         conn_r (snd (handleSTARTTLS ev srv s)) = r' \<and>
         conn_w (snd (handleSTARTTLS ev srv s)) = conn_w s @ ''220 Ready to start TLS'' @ CRLF"
  using assms
  by (simp add: handleSTARTTLS_def resetTransaction_def Let_def reply_eval)

text \<open>
  In submission mode a session that is not authenticated gets 530 for MAIL.
\<close>

lemma handleMAIL_submission_unauthenticated:
  assumes "state s = stateGreeted" "submissionMode srv" "\<not> authenticated s"
  shows "handleMAIL ev srv args s =
         reply ReplyAuthRequired EnhancedCodeAuthRequired ''Authentication required'' s"
  using assms by (simp add: handleMAIL_def)

lemma cmdLoop_line:
  assumes "wellFramed l" "NUL \<notin> set l"
    "dispatch ev srv (fst (parseCommand ev l)) (snd (parseCommand ev l)) (s\<lparr>conn_r := rest\<rparr>) =
       (True, s')"
  shows "cmdLoop (Suc n) ev srv (s\<lparr>conn_r := l @ CRLF @ rest\<rparr>) = cmdLoop n ev srv s'"
  using assms(3) by (simp add: cmdStep_line[OF assms(1,2)] del: append_Cons)

lemma cmdLoop_eof: "cmdLoop (Suc n) ev srv (s\<lparr>conn_r := []\<rparr>) = Some (s\<lparr>conn_r := []\<rparr>)"
  by (simp add: cmdStep_eof)

text \<open>
  C2: the code does not wipe every field.  On a submission server with TLS and
  authentication, a client sends an unknown command, EHLO, AUTH PLAIN (accepted) and
  STARTTLS, then, over TLS, EHLO and MAIL.  After the upgrade the session is still
  authenticated and its invalid-command counter is still 1: the second EHLO response
  no longer offers AUTH, and MAIL is accepted with 250 although nothing has
  authenticated on the TLS connection.
\<close>

theorem C2_starttls_keeps_authentication:
  "handleConn 7 upgradeEnv submissionServer
     (frame [''FOO'', ''EHLO c.test'', ''AUTH PLAIN AHRlc3R1c2VyAHRlc3RwYXNz'', ''STARTTLS'']) =
   Some ((newSession [])
     \<lparr>conn_w :=
        ''220 localhost ESMTP ready'' @ CRLF @
        ''500 5.5.1 Command not recognized'' @ CRLF @
        ''250-localhost Hello c.test'' @ CRLF @ ''250-SIZE 10485760'' @ CRLF @
        ''250-PIPELINING'' @ CRLF @ ''250-8BITMIME'' @ CRLF @
        ''250-ENHANCEDSTATUSCODES'' @ CRLF @ ''250-DSN'' @ CRLF @ ''250-SMTPUTF8'' @ CRLF @
        ''250-CHUNKING'' @ CRLF @ ''250-STARTTLS'' @ CRLF @
        ''250 AUTH PLAIN LOGIN CRAM-MD5'' @ CRLF @
        ''235 2.0.0 Authentication successful'' @ CRLF @
        ''220 Ready to start TLS'' @ CRLF @
        ''250-localhost Hello c.test'' @ CRLF @ ''250-SIZE 10485760'' @ CRLF @
        ''250-PIPELINING'' @ CRLF @ ''250-8BITMIME'' @ CRLF @
        ''250-ENHANCEDSTATUSCODES'' @ CRLF @ ''250-DSN'' @ CRLF @ ''250-SMTPUTF8'' @ CRLF @
        ''250 CHUNKING'' @ CRLF @
        ''250 2.1.0 Originator ok'' @ CRLF,
      state := stateMail, clientHostname := ''c.test'', esmtp := True, tls := True,
      authenticated := True, invalidCmds := 1, reversePath := nullPath,
      calls := [Authenticate ''PLAIN'' ''testuser'' ''testpass'']\<rparr>)"
proof -
  let ?ev = upgradeEnv and ?srv = submissionServer
  let ?l1 = "''FOO''" and ?l2 = "''EHLO c.test''"
    and ?l3 = "''AUTH PLAIN AHRlc3R1c2VyAHRlc3RwYXNz''" and ?l4 = "''STARTTLS''"
    and ?l5 = "''MAIL FROM:<>''"
  let ?ehlo1 = "''250-localhost Hello c.test'' @ CRLF @ ''250-SIZE 10485760'' @ CRLF @
        ''250-PIPELINING'' @ CRLF @ ''250-8BITMIME'' @ CRLF @
        ''250-ENHANCEDSTATUSCODES'' @ CRLF @ ''250-DSN'' @ CRLF @ ''250-SMTPUTF8'' @ CRLF @
        ''250-CHUNKING'' @ CRLF @ ''250-STARTTLS'' @ CRLF @
        ''250 AUTH PLAIN LOGIN CRAM-MD5'' @ CRLF"
  let ?ehlo2 = "''250-localhost Hello c.test'' @ CRLF @ ''250-SIZE 10485760'' @ CRLF @
        ''250-PIPELINING'' @ CRLF @ ''250-8BITMIME'' @ CRLF @
        ''250-ENHANCEDSTATUSCODES'' @ CRLF @ ''250-DSN'' @ CRLF @ ''250-SMTPUTF8'' @ CRLF @
        ''250 CHUNKING'' @ CRLF"
  let ?w0 = "''220 localhost ESMTP ready'' @ CRLF"
  let ?w1 = "?w0 @ ''500 5.5.1 Command not recognized'' @ CRLF"
  let ?w2 = "?w1 @ ?ehlo1"
  let ?w3 = "?w2 @ ''235 2.0.0 Authentication successful'' @ CRLF"
  let ?w4 = "?w3 @ ''220 Ready to start TLS'' @ CRLF"
  let ?w5 = "?w4 @ ?ehlo2"
  let ?w6 = "?w5 @ ''250 2.1.0 Originator ok'' @ CRLF"
  let ?s0 = "(newSession [])\<lparr>conn_w := ?w0\<rparr>"
  let ?s1 = "?s0\<lparr>conn_w := ?w1, invalidCmds := 1\<rparr>"
  let ?s2 = "?s1\<lparr>conn_w := ?w2, state := stateGreeted, clientHostname := ''c.test'',
                 esmtp := True\<rparr>"
  let ?s3 = "?s2\<lparr>conn_w := ?w3, authenticated := True,
                 calls := [Authenticate ''PLAIN'' ''testuser'' ''testpass'']\<rparr>"
  let ?s4 = "?s3\<lparr>conn_w := ?w4, tls := True, state := stateNew, clientHostname := [],
                 esmtp := False\<rparr>"
  let ?s5 = "?s4\<lparr>conn_w := ?w5, state := stateGreeted, clientHostname := ''c.test'',
                 esmtp := True\<rparr>"
  let ?s6 = "?s5\<lparr>conn_w := ?w6, state := stateMail, reversePath := nullPath\<rparr>"
  let ?r3 = "?l4 @ CRLF @ []"
  let ?r2 = "?l3 @ CRLF @ ?r3"
  let ?r1 = "?l2 @ CRLF @ ?r2"
  let ?r5 = "?l5 @ CRLF @ []"
  have wf: "wellFramed ?l1" "wellFramed ?l2" "wellFramed ?l3" "wellFramed ?l4" "wellFramed ?l5"
    by (simp_all add: wellFramed_def MaxCommandLineLen_def)
  have d1: "dispatch ?ev ?srv (fst (parseCommand ?ev ?l1)) (snd (parseCommand ?ev ?l1))
              (?s0\<lparr>conn_r := ?r1\<rparr>) = (True, ?s1\<lparr>conn_r := ?r1\<rparr>)"
    by (simp add: run_eval invalidCommand_def)
  have d2: "dispatch ?ev ?srv (fst (parseCommand ?ev ?l2)) (snd (parseCommand ?ev ?l2))
              (?s1\<lparr>conn_r := ?r2\<rparr>) = (True, ?s2\<lparr>conn_r := ?r2\<rparr>)"
    by (simp add: run_eval handleEHLO_def ehloLines_def resetTransaction_def)
  have d3: "dispatch ?ev ?srv (fst (parseCommand ?ev ?l3)) (snd (parseCommand ?ev ?l3))
              (?s2\<lparr>conn_r := ?r3\<rparr>) = (True, ?s3\<lparr>conn_r := ?r3\<rparr>)"
    by (simp add: run_eval handleAUTH_def authPLAIN_def splitNull_def finishAuth_def acceptAll_def)
  have d4: "dispatch ?ev ?srv (fst (parseCommand ?ev ?l4)) (snd (parseCommand ?ev ?l4))
              (?s3\<lparr>conn_r := []\<rparr>) = (True, ?s4\<lparr>conn_r := ?l2 @ CRLF @ ?r5\<rparr>)"
    by (simp add: run_eval handleSTARTTLS_def resetTransaction_def frame_def)
  have d5: "dispatch ?ev ?srv (fst (parseCommand ?ev ?l2)) (snd (parseCommand ?ev ?l2))
              (?s4\<lparr>conn_r := ?r5\<rparr>) = (True, ?s5\<lparr>conn_r := ?r5\<rparr>)"
    by (simp add: run_eval handleEHLO_def ehloLines_def resetTransaction_def)
  have d6: "dispatch ?ev ?srv (fst (parseCommand ?ev ?l5)) (snd (parseCommand ?ev ?l5))
              (?s5\<lparr>conn_r := []\<rparr>) = (True, ?s6\<lparr>conn_r := []\<rparr>)"
    by (simp add: run_eval handleMAIL_def nullPath_def)
  have "handleConn (Suc (Suc (Suc (Suc (Suc (Suc (Suc 0))))))) ?ev ?srv (frame [?l1, ?l2, ?l3, ?l4]) =
        cmdLoop (Suc (Suc (Suc (Suc (Suc (Suc (Suc 0))))))) ?ev ?srv (?s0\<lparr>conn_r := ?l1 @ CRLF @ ?r1\<rparr>)"
    by (simp add: handleConn_def frame_def run_eval del: cmdLoop.simps)
  also have "\<dots> = cmdLoop (Suc (Suc (Suc (Suc (Suc (Suc 0)))))) ?ev ?srv (?s1\<lparr>conn_r := ?l2 @ CRLF @ ?r2\<rparr>)"
    by (rule cmdLoop_line[OF wf(1) _ d1]) simp
  also have "\<dots> = cmdLoop (Suc (Suc (Suc (Suc (Suc 0))))) ?ev ?srv (?s2\<lparr>conn_r := ?l3 @ CRLF @ ?r3\<rparr>)"
    by (rule cmdLoop_line[OF wf(2) _ d2]) simp
  also have "\<dots> = cmdLoop (Suc (Suc (Suc (Suc 0)))) ?ev ?srv (?s3\<lparr>conn_r := ?l4 @ CRLF @ []\<rparr>)"
    by (rule cmdLoop_line[OF wf(3) _ d3]) simp
  also have "\<dots> = cmdLoop (Suc (Suc (Suc 0))) ?ev ?srv (?s4\<lparr>conn_r := ?l2 @ CRLF @ ?r5\<rparr>)"
    by (rule cmdLoop_line[OF wf(4) _ d4]) simp
  also have "\<dots> = cmdLoop (Suc (Suc 0)) ?ev ?srv (?s5\<lparr>conn_r := ?l5 @ CRLF @ []\<rparr>)"
    by (rule cmdLoop_line[OF wf(2) _ d5]) simp
  also have "\<dots> = cmdLoop (Suc 0) ?ev ?srv (?s6\<lparr>conn_r := []\<rparr>)"
    by (rule cmdLoop_line[OF wf(5) _ d6]) simp
  also have "\<dots> = Some (?s6\<lparr>conn_r := []\<rparr>)"
    by (rule cmdLoop_eof)
  finally have run: "handleConn (Suc (Suc (Suc (Suc (Suc (Suc (Suc 0))))))) ?ev ?srv
        (frame [?l1, ?l2, ?l3, ?l4]) = Some (?s6\<lparr>conn_r := []\<rparr>)" .
  have fuel: "Suc (Suc (Suc (Suc (Suc (Suc (Suc 0)))))) = 7" by simp
  from run[unfolded fuel] show ?thesis by (simp add: newSession_def)
qed


end
